theory Spec2Isabelle
  imports Complex_Main
begin

section \<open>Numbers, vectors and rotations\<close>

text \<open>
  The program computes on IEEE doubles and floats. The embedding reads them as real
  numbers. On the path the duration of the preintegration takes (the differences of
  time stamps and their accumulation) every operation is the operation on doubles: the
  exact result rounded to the nearest double, ties to even, by \<open>fl64\<close> below. Everywhere
  else the arithmetic is exact, so rounding there, overflow to infinity and the NaN
  produced by arithmetic are outside the model. Where the code itself branches
  on NaN (the curvature scores of the sweep grid) the values are of type \<open>fp\<close> below,
  with NaN and the infinities as values of their own. C++ \<open>int\<close> is read as \<open>int\<close>:
  the indices of the code are bounded by the sizes of its buffers.
\<close>

text \<open>
  Rounding to binary64. A double is an integer of at most 53 bits times a power of two
  that is at least \<open>2^-1074\<close>. \<open>fl64_exp x\<close> is the exponent of the last place of the
  doubles around \<open>x\<close>, and \<open>fl64 x\<close> the multiple of \<open>2^(fl64_exp x)\<close> nearest to \<open>x\<close>,
  the even one at a tie. The exponent has no upper bound here: overflow is outside.
\<close>

definition round_even :: "real \<Rightarrow> int" where
  "round_even y =
     (let f = \<lfloor>y\<rfloor> in
      if y - of_int f < 1 / 2 then f
      else if y - of_int f > 1 / 2 then f + 1
      else if even f then f else f + 1)"

definition fl64_exp :: "real \<Rightarrow> int" where
  "fl64_exp x = max (\<lfloor>log 2 \<bar>x\<bar>\<rfloor> - 52) (- 1074)"

definition fl64 :: "real \<Rightarrow> real" where
  "fl64 x =
     (if x = 0 then 0
      else of_int (round_even (x / 2 powr of_int (fl64_exp x))) * 2 powr of_int (fl64_exp x))"

definition double_add :: "real \<Rightarrow> real \<Rightarrow> real" where
  "double_add a b = fl64 (a + b)"

definition double_sub :: "real \<Rightarrow> real \<Rightarrow> real" where
  "double_sub a b = fl64 (a - b)"

text \<open>A real number is a double when rounding leaves it as it is.\<close>

definition is_double :: "real \<Rightarrow> bool" where
  "is_double x = (fl64 x = x)"

text \<open>The unit roundoff, and the grid of the multiples of the smallest double.\<close>

definition eps64 :: real where
  "eps64 = 1 / 2 ^ 53"

definition on_grid :: "real \<Rightarrow> bool" where
  "on_grid x = (\<exists>m :: int. x = of_int m * 2 powr (- 1074))"

datatype vec3 = V3 real real real

datatype mat3 = M3 vec3 vec3 vec3

definition zero3 :: vec3 where
  "zero3 = V3 0 0 0"

definition kIdent3 :: mat3 where
  "kIdent3 = M3 (V3 1 0 0) (V3 0 1 0) (V3 0 0 1)"

definition zeroM3 :: mat3 where
  "zeroM3 = M3 zero3 zero3 zero3"

fun vadd :: "vec3 \<Rightarrow> vec3 \<Rightarrow> vec3" where
  "vadd (V3 a b c) (V3 x y z) = V3 (a + x) (b + y) (c + z)"

fun vsub :: "vec3 \<Rightarrow> vec3 \<Rightarrow> vec3" where
  "vsub (V3 a b c) (V3 x y z) = V3 (a - x) (b - y) (c - z)"

fun vscale :: "real \<Rightarrow> vec3 \<Rightarrow> vec3" where
  "vscale s (V3 x y z) = V3 (s * x) (s * y) (s * z)"

fun vdiv :: "vec3 \<Rightarrow> real \<Rightarrow> vec3" where
  "vdiv (V3 x y z) s = V3 (x / s) (y / s) (z / s)"

fun dot3 :: "vec3 \<Rightarrow> vec3 \<Rightarrow> real" where
  "dot3 (V3 a b c) (V3 x y z) = a * x + b * y + c * z"

fun vnth :: "vec3 \<Rightarrow> nat \<Rightarrow> real" where
  "vnth (V3 x y z) i = (if i = 0 then x else if i = 1 then y else z)"

fun mrow :: "mat3 \<Rightarrow> nat \<Rightarrow> vec3" where
  "mrow (M3 r0 r1 r2) i = (if i = 0 then r0 else if i = 1 then r1 else r2)"

definition mnth :: "mat3 \<Rightarrow> nat \<Rightarrow> nat \<Rightarrow> real" where
  "mnth m i j = vnth (mrow m i) j"

fun mcol :: "mat3 \<Rightarrow> nat \<Rightarrow> vec3" where
  "mcol (M3 r0 r1 r2) j = V3 (vnth r0 j) (vnth r1 j) (vnth r2 j)"

fun mat_vec :: "mat3 \<Rightarrow> vec3 \<Rightarrow> vec3" where
  "mat_vec (M3 r0 r1 r2) v = V3 (dot3 r0 v) (dot3 r1 v) (dot3 r2 v)"

definition transpose3 :: "mat3 \<Rightarrow> mat3" where
  "transpose3 m = M3 (mcol m 0) (mcol m 1) (mcol m 2)"

fun mat_mul :: "mat3 \<Rightarrow> mat3 \<Rightarrow> mat3" where
  "mat_mul (M3 r0 r1 r2) b =
     M3 (V3 (dot3 r0 (mcol b 0)) (dot3 r0 (mcol b 1)) (dot3 r0 (mcol b 2)))
        (V3 (dot3 r1 (mcol b 0)) (dot3 r1 (mcol b 1)) (dot3 r1 (mcol b 2)))
        (V3 (dot3 r2 (mcol b 0)) (dot3 r2 (mcol b 1)) (dot3 r2 (mcol b 2)))"

fun mat_scale :: "real \<Rightarrow> mat3 \<Rightarrow> mat3" where
  "mat_scale s (M3 r0 r1 r2) = M3 (vscale s r0) (vscale s r1) (vscale s r2)"

fun mat_add :: "mat3 \<Rightarrow> mat3 \<Rightarrow> mat3" where
  "mat_add (M3 a0 a1 a2) (M3 b0 b1 b2) = M3 (vadd a0 b0) (vadd a1 b1) (vadd a2 b2)"

definition mat_neg :: "mat3 \<Rightarrow> mat3" where
  "mat_neg m = mat_scale (- 1) m"

text \<open>
  \<open>Hat3\<close> is declared in \<open>sv/util/math.h\<close>, which is not among the sources: it is the
  skew-symmetric matrix of a 3-vector, written \<open>\<lfloor>v\<rfloor>\<times>\<close> in the specification.
\<close>

fun Hat3 :: "vec3 \<Rightarrow> mat3" where
  "Hat3 (V3 x y z) = M3 (V3 0 (- z) y) (V3 z 0 (- x)) (V3 (- y) x 0)"

text \<open>
  \<open>Sophus::SO3d\<close> is a library type. A rotation is read as its 3x3 matrix: the group
  product is the matrix product, the action on a point the matrix-vector product, the
  inverse the transpose, and the default-constructed rotation the identity. The
  exponential map of a 3-vector is Rodrigues' formula, with the identity at angle zero.
  The logarithm is passed to the functions that call it.
\<close>

type_synonym SO3d = mat3

definition SO3_inverse :: "SO3d \<Rightarrow> SO3d" where
  "SO3_inverse R = transpose3 R"

definition SO3_exp :: "vec3 \<Rightarrow> SO3d" where
  "SO3_exp w =
     (let th = sqrt (dot3 w w); K = Hat3 w in
      if th = 0 then kIdent3
      else mat_add kIdent3
             (mat_add (mat_scale (sin th / th) K)
                      (mat_scale ((1 - cos th) / (th * th)) (mat_mul K K))))"

text \<open>\<open>Sophus::SE3d\<close>: a rotation and a translation, acting as \<open>R * p + t\<close>.\<close>

record SE3d =
  so3 :: SO3d
  translation :: vec3

definition SE3_act :: "SE3d \<Rightarrow> vec3 \<Rightarrow> vec3" where
  "SE3_act T p = vadd (mat_vec (so3 T) p) (translation T)"

section \<open>Failures\<close>

text \<open>
  A failed glog \<open>CHECK\<close> aborts the process: nothing is returned to the caller. The
  model returns \<open>Inl (CheckFailed c)\<close> with the text of the check. \<open>OutOfRange\<close> is the
  exception of \<open>std::vector::at\<close> (and stands for \<open>front\<close> or \<open>back\<close> of an empty vector),
  \<open>DivideByZero\<close> an integer division by zero, \<open>NullPointer\<close> the use of a null pointer.
\<close>

datatype fault = CheckFailed string | OutOfRange | DivideByZero | NullPointer

section \<open>Floats that may be NaN\<close>

datatype fp = NaN | MInf | Fin real | PInf

fun fp_less :: "fp \<Rightarrow> fp \<Rightarrow> bool" where
  "fp_less NaN b = False"
| "fp_less a NaN = False"
| "fp_less MInf MInf = False"
| "fp_less MInf b = True"
| "fp_less (Fin a) (Fin b) = (a < b)"
| "fp_less (Fin a) PInf = True"
| "fp_less (Fin a) MInf = False"
| "fp_less PInf b = False"

definition fp_greater :: "fp \<Rightarrow> fp \<Rightarrow> bool" where
  "fp_greater a b = fp_less b a"

definition isnan :: "fp \<Rightarrow> bool" where
  "isnan a = (a = NaN)"

section \<open>Grid data\<close>

text \<open>
  \<open>cv::Point\<close> is a pair \<open>(x, y)\<close>, \<open>cv::Range\<close> a pair \<open>(start, end)\<close>, \<open>cv::Size\<close> a pair
  \<open>(width, height)\<close>.
\<close>

type_synonym Point = "int \<times> int"
type_synonym Range = "int \<times> int"
type_synonym Size = "int \<times> int"

definition Range_size :: "Range \<Rightarrow> int" where
  "Range_size rg = snd rg - fst rg"

text \<open>C++ integer division truncates towards zero; \<open>%\<close> takes the sign of the dividend.\<close>

definition cdiv :: "int \<Rightarrow> int \<Rightarrow> int" where
  "cdiv a b = sgn a * sgn b * (\<bar>a\<bar> div \<bar>b\<bar>)"

definition cmod :: "int \<Rightarrow> int \<Rightarrow> int" where
  "cmod a b = a - b * cdiv a b"

record MeanCovar3f =
  mc_n :: int
  mean :: vec3
  covar :: mat3

record Match =
  px_g :: Point
  mc_g :: MeanCovar3f
  mc_p :: MeanCovar3f
  match_U :: mat3

text \<open>
  A scan slice. The methods \<open>CurveAt\<close> and \<open>MeanCovarAt\<close> of \<open>LidarScan\<close> are defined
  in \<open>sv/llol/scan.h\<close>, which is not among the sources; they read the pixels of the slice
  only, so the slice carries them as fields in place of its pixel data.
\<close>

record LidarScan =
  scan_t :: real
  scan_dt :: real
  xyzr_rows :: int
  scan_col_rg :: Range
  CurveAt :: "Point \<Rightarrow> int \<Rightarrow> fp"
  MeanCovarAt :: "Point \<Rightarrow> int \<Rightarrow> MeanCovar3f \<Rightarrow> MeanCovar3f"

record SweepGrid =
  cell_size :: Size
  max_score :: fp
  nms :: bool
  score_rows :: int
  score_cols :: int
  score :: "Point \<Rightarrow> fp"
  col_rg :: Range
  tfs :: "SE3d list"
  matches :: "Match list"

definition Px2Ind :: "SweepGrid \<Rightarrow> Point \<Rightarrow> int" where
  "Px2Ind g px_grid = snd px_grid * score_cols g + fst px_grid"

definition Grid2Sweep :: "SweepGrid \<Rightarrow> Point \<Rightarrow> Point" where
  "Grid2Sweep g px_grid = (fst px_grid * fst (cell_size g), snd px_grid * snd (cell_size g))"

definition ScoreAt :: "SweepGrid \<Rightarrow> Point \<Rightarrow> fp" where
  "ScoreAt g px = score g px"

text \<open>
  Modelled from the spec: \<open>SweepGrid::MatchAt\<close> is declared in \<open>sv/llol/grid.h\<close>, which is
  not among the sources. The cell array is a flat row-major vector of \<open>ncols * nrows\<close>
  cells; \<open>MatchAt\<close> reads the cell at \<open>Px2Ind\<close> with the bounds check of \<open>at\<close>.
\<close>

definition MatchAt :: "SweepGrid \<Rightarrow> Point \<Rightarrow> fault + Match" where
  "MatchAt g px =
     (let i = Px2Ind g px in
      if 0 \<le> i \<and> i < int (length (matches g)) then Inr (matches g ! nat i)
      else Inl OutOfRange)"

definition set_MatchAt :: "SweepGrid \<Rightarrow> Point \<Rightarrow> Match \<Rightarrow> SweepGrid" where
  "set_MatchAt g px m = g\<lparr>matches := (matches g)[nat (Px2Ind g px) := m]\<rparr>"

text \<open>
  A counted loop \<open>for (int i = 0; i < n; ++i)\<close> runs its body on \<open>0, ..., n - 1\<close> in
  order and stops at the first failure. The parallel loops of the code
  (\<open>tbb::parallel_for\<close>, \<open>tbb::parallel_reduce\<close> with \<open>std::plus\<close>) run bodies that write
  disjoint cells, so they are read in index order too; the grain size only cuts the
  index range into chunks.
\<close>

fun for_each :: "('i \<Rightarrow> 's \<Rightarrow> fault + 's) \<Rightarrow> 'i list \<Rightarrow> 's \<Rightarrow> fault + 's" where
  "for_each body [] s = Inr s"
| "for_each body (i # is) s =
     (case body i s of Inl e \<Rightarrow> Inl e | Inr s' \<Rightarrow> for_each body is s')"

definition upto_int :: "int \<Rightarrow> int list" where
  "upto_int n = map int [0 ..< nat n]"

section \<open>SweepGrid\<close>

text \<open>
  \<open>cv::Range / int\<close> is an operator of \<open>sv/util/ocv.h\<close>, which is not among the
  sources: both ends are divided.
\<close>

definition Range_div :: "Range \<Rightarrow> int \<Rightarrow> fault + Range" where
  "Range_div rg d =
     (if d = 0 then Inl DivideByZero else Inr (cdiv (fst rg) d, cdiv (snd rg) d))"

definition Check :: "SweepGrid \<Rightarrow> LidarScan \<Rightarrow> fault + unit" where
  "Check g scan =
     (if xyzr_rows scan \<noteq> score_rows g * snd (cell_size g)
      then Inl (CheckFailed ''CHECK_EQ(scan.xyzr.rows, score.rows * cell_size.height)'')
      else if score_cols g = 0 then Inl DivideByZero
      else if fst (scan_col_rg scan) \<noteq> cmod (snd (col_rg g) * fst (cell_size g)) (score_cols g)
      then Inl (CheckFailed
        ''CHECK_EQ(scan.col_rg.start, (col_rg.end * cell_size.width) % score.cols)'')
      else if \<not> snd (scan_col_rg scan) \<le> score_cols g * fst (cell_size g)
      then Inl (CheckFailed ''CHECK_LE(scan.col_rg.end, score.cols * cell_size.width)'')
      else Inr ())"

definition ScoreRow_body :: "LidarScan \<Rightarrow> int \<Rightarrow> int \<Rightarrow> SweepGrid \<times> int \<Rightarrow> fault + SweepGrid \<times> int" where
  "ScoreRow_body scan r c s =
     (let g = fst s; n = snd s;
          px_s = Grid2Sweep g (c, r);
          curve = CurveAt scan px_s (fst (cell_size g))
      in Inr (g\<lparr>score := (score g)((c + fst (col_rg g), r) := curve)\<rparr>,
              n + (if \<not> isnan curve then 1 else 0)))"

definition ScoreRow :: "LidarScan \<Rightarrow> int \<Rightarrow> SweepGrid \<Rightarrow> fault + SweepGrid \<times> int" where
  "ScoreRow scan r g =
     for_each (ScoreRow_body scan r) (upto_int (Range_size (col_rg g))) (g, 0)"

definition Score_body :: "LidarScan \<Rightarrow> int \<Rightarrow> SweepGrid \<times> int \<Rightarrow> fault + SweepGrid \<times> int" where
  "Score_body scan r s =
     (case ScoreRow scan r (fst s) of
        Inl e \<Rightarrow> Inl e
      | Inr (g', k) \<Rightarrow> Inr (g', snd s + k))"

definition Score :: "SweepGrid \<Rightarrow> LidarScan \<Rightarrow> int \<Rightarrow> fault + SweepGrid \<times> int" where
  "Score g scan gsize =
     (case Range_div (scan_col_rg scan) (fst (cell_size g)) of
        Inl e \<Rightarrow> Inl e
      | Inr rg \<Rightarrow> for_each (Score_body scan) (upto_int (score_rows g)) (g\<lparr>col_rg := rg\<rparr>, 0))"

definition IsCellGood :: "SweepGrid \<Rightarrow> Point \<Rightarrow> bool" where
  "IsCellGood g px =
     (let m = ScoreAt g px in
      if \<not> fp_less m (max_score g) then False
      else if nms g then
        (let l = ScoreAt g (fst px - 1, snd px);
             r = ScoreAt g (fst px + 1, snd px)
         in if fp_greater m l \<or> fp_greater m r then False else True)
      else True)"

text \<open>
  \<open>Match::Reset\<close> is defined in a header that is not among the sources; the functions
  that call it take it as the argument \<open>Reset\<close>.
\<close>

definition FilterRow_body ::
  "(Match \<Rightarrow> Match) \<Rightarrow> LidarScan \<Rightarrow> int \<Rightarrow> int \<Rightarrow> SweepGrid \<times> int \<Rightarrow> fault + SweepGrid \<times> int" where
  "FilterRow_body Reset scan r c s =
     (let g = fst s; n = snd s;
          pad = (if nms g then 1 else 0);
          px = (c + fst (col_rg g), r)
      in case MatchAt g px of
           Inl e \<Rightarrow> Inl e
         | Inr match \<Rightarrow>
             if pad \<le> c \<and> c < Range_size (col_rg g) - pad \<and> IsCellGood g px
             then Inr (set_MatchAt g px
                         (match\<lparr>mc_g := MeanCovarAt scan (Grid2Sweep g (c, r))
                                           (fst (cell_size g)) (mc_g match),
                                 px_g := px\<rparr>),
                       n + 1)
             else Inr (set_MatchAt g px (Reset match), n))"

definition FilterRow ::
  "(Match \<Rightarrow> Match) \<Rightarrow> LidarScan \<Rightarrow> int \<Rightarrow> SweepGrid \<Rightarrow> fault + SweepGrid \<times> int" where
  "FilterRow Reset scan r g =
     for_each (FilterRow_body Reset scan r) (upto_int (Range_size (col_rg g))) (g, 0)"

definition Filter_body ::
  "(Match \<Rightarrow> Match) \<Rightarrow> LidarScan \<Rightarrow> int \<Rightarrow> SweepGrid \<times> int \<Rightarrow> fault + SweepGrid \<times> int" where
  "Filter_body Reset scan r s =
     (case FilterRow Reset scan r (fst s) of
        Inl e \<Rightarrow> Inl e
      | Inr (g', k) \<Rightarrow> Inr (g', snd s + k))"

definition Filter ::
  "(Match \<Rightarrow> Match) \<Rightarrow> SweepGrid \<Rightarrow> LidarScan \<Rightarrow> int \<Rightarrow> fault + SweepGrid \<times> int" where
  "Filter Reset g scan gsize =
     (case Range_div (scan_col_rg scan) (fst (cell_size g)) of
        Inl e \<Rightarrow> Inl e
      | Inr new_rg \<Rightarrow>
          if fst new_rg \<noteq> fst (col_rg g)
          then Inl (CheckFailed ''CHECK_EQ(new_rg.start, col_rg.start)'')
          else if snd new_rg \<noteq> snd (col_rg g)
          then Inl (CheckFailed ''CHECK_EQ(new_rg.end, col_rg.end)'')
          else for_each (Filter_body Reset scan) (upto_int (score_rows g)) (g, 0))"

definition Add ::
  "(Match \<Rightarrow> Match) \<Rightarrow> SweepGrid \<Rightarrow> LidarScan \<Rightarrow> int \<Rightarrow> fault + SweepGrid \<times> int \<times> int" where
  "Add Reset g scan gsize =
     (case Check g scan of
        Inl e \<Rightarrow> Inl e
      | Inr u \<Rightarrow>
         (case Score g scan gsize of
            Inl e \<Rightarrow> Inl e
          | Inr (g1, n1) \<Rightarrow>
             (case Filter Reset g1 scan gsize of
                Inl e \<Rightarrow> Inl e
              | Inr (g2, n2) \<Rightarrow> Inr (g2, n1, n2))))"

section \<open>IMU data, trajectory and preintegration\<close>

record ImuData =
  time :: real
  acc :: vec3
  gyr :: vec3

record ImuBias =
  acc_bias :: vec3
  gyr_bias :: vec3

text \<open>
  Modelled from the spec: \<open>ImuData::DeBiased\<close> is defined in \<open>sv/llol/imu.h\<close>, which is
  not among the sources. The specification speaks of the de-biased gyro: the biases are
  subtracted and the time stamp is kept.
\<close>

definition DeBiased :: "ImuData \<Rightarrow> ImuBias \<Rightarrow> ImuData" where
  "DeBiased imu b = imu\<lparr>acc := vsub (acc imu) (acc_bias b), gyr := vsub (gyr imu) (gyr_bias b)\<rparr>"

text \<open>
  Matrices of dynamic or large size (the 15x15 \<open>F\<close>, \<open>P\<close> and \<open>U\<close>, the Jacobian behind
  \<open>J_ptr\<close>) are stores from (row, column) to a number, and vectors behind a pointer
  (\<open>x_ptr\<close>, \<open>r_ptr\<close>, \<open>sigma2\<close>) stores from an index to a number.
\<close>

type_synonym matX = "nat \<Rightarrow> nat \<Rightarrow> real"
type_synonym vecX = "nat \<Rightarrow> real"

definition block3 :: "matX \<Rightarrow> nat \<Rightarrow> nat \<Rightarrow> mat3" where
  "block3 M r c =
     M3 (V3 (M r c) (M r (c + 1)) (M r (c + 2)))
        (V3 (M (r + 1) c) (M (r + 1) (c + 1)) (M (r + 1) (c + 2)))
        (V3 (M (r + 2) c) (M (r + 2) (c + 1)) (M (r + 2) (c + 2)))"

definition set_block3 :: "matX \<Rightarrow> nat \<Rightarrow> nat \<Rightarrow> mat3 \<Rightarrow> matX" where
  "set_block3 M r c B =
     (\<lambda>i j. if r \<le> i \<and> i < r + 3 \<and> c \<le> j \<and> j < c + 3 then mnth B (i - r) (j - c) else M i j)"

definition segment3 :: "vecX \<Rightarrow> nat \<Rightarrow> vec3" where
  "segment3 v k = V3 (v k) (v (k + 1)) (v (k + 2))"

definition set_segment3 :: "vecX \<Rightarrow> nat \<Rightarrow> vec3 \<Rightarrow> vecX" where
  "set_segment3 v k a = (\<lambda>i. if k \<le> i \<and> i < k + 3 then vnth a (i - k) else v i)"

definition mat15_mul :: "matX \<Rightarrow> matX \<Rightarrow> matX" where
  "mat15_mul A B = (\<lambda>i j. \<Sum>k<15. A i k * B k j)"

definition matX_transpose :: "matX \<Rightarrow> matX" where
  "matX_transpose A = (\<lambda>i j. A j i)"

definition matX_scale :: "matX \<Rightarrow> real \<Rightarrow> matX" where
  "matX_scale A s = (\<lambda>i j. A i j * s)"

definition matX_identity :: matX where
  "matX_identity = (\<lambda>i j. if i = j then 1 else 0)"

definition matX_zero :: matX where
  "matX_zero = (\<lambda>i j. 0)"

record ImuNoise =
  sigma2 :: vecX

text \<open>\<open>ImuNoise::kDim\<close> is the length 12 of \<open>sigma2\<close>.\<close>

definition kDim :: nat where
  "kDim = 12"

record NavState =
  state_time :: real
  rot :: SO3d
  pos :: vec3
  vel :: vec3

text \<open>
  The trajectory: \<open>ImuTrajectory\<close> in \<open>src/sv/llol/imu.cpp\<close>, \<open>Trajectory\<close> in
  \<open>src/sv/llol/cost.cpp\<close>, where its gravity vector is called \<open>g_pano\<close>.
\<close>

record Trajectory =
  states :: "NavState list"
  buf :: "ImuData list"
  bias :: ImuBias
  noise :: ImuNoise
  g_pano :: vec3
  T_imu_lidar :: SE3d

text \<open>
  The preintegration. Its fields \<open>n\<close>, \<open>F\<close>, \<open>P\<close> and \<open>U\<close> are \<open>pre_n\<close>, \<open>pre_F\<close>,
  \<open>pre_P\<close> and \<open>pre_U\<close> here. The index layout \<open>{ALPHA: 0, BETA: 3, THETA: 6, BA: 9,
  BW: 12}\<close> is declared in \<open>sv/llol/imu.h\<close> and given by the specification.
\<close>

record ImuPreintegration =
  duration :: real
  pre_n :: int
  pre_F :: matX
  pre_P :: matX
  alpha :: vec3
  beta :: vec3
  gamma :: SO3d
  pre_U :: matX

definition ALPHA :: nat where "ALPHA = 0"
definition BETA :: nat where "BETA = 3"
definition THETA :: nat where "THETA = 6"
definition BA :: nat where "BA = 9"
definition BW :: nat where "BW = 12"

fun FindNextImu_from :: "ImuData list \<Rightarrow> real \<Rightarrow> int \<Rightarrow> int" where
  "FindNextImu_from [] t i = - 1"
| "FindNextImu_from (d # ds) t i = (if time d > t then i else FindNextImu_from ds t (i + 1))"

definition FindNextImu :: "ImuData list \<Rightarrow> real \<Rightarrow> int" where
  "FindNextImu b t = FindNextImu_from b t 0"

text \<open>
  \<open>ImuAt\<close> is declared in \<open>sv/llol/imu.h\<close>; it is read as \<open>buf.at(i)\<close>.
\<close>

definition ImuAt :: "ImuData list \<Rightarrow> int \<Rightarrow> fault + ImuData" where
  "ImuAt b i = (if 0 \<le> i \<and> i < int (length b) then Inr (b ! nat i) else Inl OutOfRange)"

definition Integrate :: "real \<Rightarrow> ImuData \<Rightarrow> ImuNoise \<Rightarrow> ImuPreintegration \<Rightarrow> fault + ImuPreintegration" where
  "Integrate dt imu nz p =
     (if \<not> dt > 0 then Inl (CheckFailed ''CHECK_GT(dt, 0)'')
      else
        let dt2 = dt * dt;
            a = acc imu;
            w = gyr imu;
            ga = mat_vec (gamma p) a;
            dgamma = SO3_exp (vscale dt w);
            dbeta = vscale dt ga;
            dalpha = vadd (vscale dt (beta p)) (vscale 0.5 (vscale dt2 ga));
            Rmat = gamma p;
            F1 = set_block3 (pre_F p) ALPHA BETA kIdent3;
            F2 = set_block3 F1 BETA THETA (mat_neg (mat_mul Rmat (Hat3 a)));
            F3 = set_block3 F2 BETA BA (mat_neg Rmat);
            F4 = set_block3 F3 THETA THETA (mat_neg (Hat3 w));
            F5 = set_block3 F4 THETA BW (mat_neg kIdent3);
            P1 = matX_scale (mat15_mul (mat15_mul F5 (pre_P p)) (matX_transpose F5)) dt2;
            P2 = (\<lambda>i j. if i = j \<and> 15 - kDim \<le> i \<and> i < 15
                         then P1 i j + sigma2 nz (i - (15 - kDim)) else P1 i j)
        in Inr (p\<lparr>pre_F := F5, pre_P := P2,
                  alpha := vadd (alpha p) dalpha,
                  beta := vadd (beta p) dbeta,
                  gamma := mat_mul (gamma p) dgamma,
                  duration := double_add (duration p) dt,
                  pre_n := pre_n p + 1\<rparr>))"

definition Reset_preint :: "ImuPreintegration \<Rightarrow> ImuPreintegration" where
  "Reset_preint p =
     p\<lparr>duration := 0, pre_n := 0, pre_F := matX_identity, pre_P := matX_zero,
       alpha := zero3, beta := zero3, gamma := kIdent3\<rparr>"

section \<open>Trajectory prediction\<close>

text \<open>
  \<open>ImuTrajectory::Predict\<close> of \<open>src/sv/llol/imu.cpp\<close>. The loop keeps \<open>ibuf\<close> inside the
  buffer, so the unchecked \<open>buf[ibuf]\<close> is read through \<open>ImuAt\<close>.
\<close>

definition Predict_body :: "real \<Rightarrow> real \<Rightarrow> int \<Rightarrow> Trajectory \<times> int \<Rightarrow> fault + Trajectory \<times> int" where
  "Predict_body t0 dt i s =
     (let tr = fst s; ibuf = snd s; ti = t0 + dt * real_of_int i in
      case ImuAt (buf tr) ibuf of
        Inl e \<Rightarrow> Inl e
      | Inr b \<Rightarrow>
         (let ibuf1 = (if time b < ti then ibuf + 1 else ibuf);
              ibuf2 = (if ibuf1 \<ge> int (length (buf tr)) then int (length (buf tr)) - 1 else ibuf1)
          in case ImuAt (buf tr) ibuf2 of
               Inl e \<Rightarrow> Inl e
             | Inr d \<Rightarrow>
                 if \<not> (1 \<le> i \<and> i < int (length (states tr))) then Inl OutOfRange
                 else
                   let imu = DeBiased d (bias tr);
                       prev = states tr ! nat (i - 1);
                       curr = states tr ! nat i;
                       curr' = curr\<lparr>state_time := state_time prev + dt,
                                     pos := pos (states tr ! 0),
                                     rot := mat_mul (rot prev) (SO3_exp (vscale dt (gyr imu)))\<rparr>
                   in Inr (tr\<lparr>states := (states tr)[nat i := curr']\<rparr>, ibuf2)))"

definition Predict :: "Trajectory \<Rightarrow> real \<Rightarrow> real \<Rightarrow> fault + Trajectory \<times> int" where
  "Predict tr t0 dt =
     (let ibuf = FindNextImu (buf tr) t0 in
      if \<not> ibuf \<ge> 0 then Inl (CheckFailed ''CHECK_GE(ibuf, 0)'')
      else
        case states tr of
          [] \<Rightarrow> Inl OutOfRange
        | s0 # rest \<Rightarrow>
            (case for_each (Predict_body t0 dt) (map int [1 ..< length (states tr)])
                    (tr\<lparr>states := s0\<lparr>state_time := t0\<rparr> # rest\<rparr>, ibuf) of
               Inl e \<Rightarrow> Inl e
             | Inr (tr', ibuf') \<Rightarrow> Inr (tr', ibuf' - ibuf + 1)))"

text \<open>
  \<open>ImuTrajectory::Predict\<close> of \<open>src/unnamed/part_000\<close>, an earlier state of the same
  file: the trajectory is a vector \<open>traj\<close> of poses, and the gyro is rotated into the
  lidar frame.
\<close>

record ImuTrajectory =
  traj :: "SE3d list"
  traj_buf :: "ImuData list"
  traj_T_imu_lidar :: SE3d

definition Predict0_body :: "real \<Rightarrow> real \<Rightarrow> int \<Rightarrow> ImuTrajectory \<times> int \<Rightarrow> fault + ImuTrajectory \<times> int" where
  "Predict0_body t0 dt i s =
     (let tr = fst s; ibuf = snd s; ti = t0 + dt * real_of_int i in
      case ImuAt (traj_buf tr) ibuf of
        Inl e \<Rightarrow> Inl e
      | Inr b \<Rightarrow>
         (let ibuf1 = (if ti > time b then ibuf + 1 else ibuf);
              ibuf2 = (if ibuf1 \<ge> int (length (traj_buf tr))
                       then int (length (traj_buf tr)) - 1 else ibuf1)
          in case ImuAt (traj_buf tr) ibuf2 of
               Inl e \<Rightarrow> Inl e
             | Inr imu \<Rightarrow>
                 if \<not> (1 \<le> i \<and> i < int (length (traj tr))) then Inl OutOfRange
                 else
                   let gyr_l = mat_vec (SO3_inverse (so3 (traj_T_imu_lidar tr))) (gyr imu);
                       omg_l = vscale dt gyr_l;
                       ti' = (traj tr ! nat i)\<lparr>translation := translation (traj tr ! 0)\<rparr>;
                       ti'' = ti'\<lparr>so3 := mat_mul (so3 (traj tr ! nat (i - 1))) (SO3_exp omg_l)\<rparr>
                   in Inr (tr\<lparr>traj := (traj tr)[nat i := ti'']\<rparr>, ibuf2)))"

definition Predict0 :: "ImuTrajectory \<Rightarrow> real \<Rightarrow> real \<Rightarrow> fault + ImuTrajectory \<times> int" where
  "Predict0 tr t0 dt =
     (let ibuf = FindNextImu (traj_buf tr) t0 in
      if ibuf < 0 then Inr (tr, 0)
      else
        case for_each (Predict0_body t0 dt) (map int [1 ..< length (traj tr)]) (tr, ibuf) of
          Inl e \<Rightarrow> Inl e
        | Inr (tr', ibuf') \<Rightarrow> Inr (tr', ibuf' - ibuf + 1))"

section \<open>Preintegration over the window\<close>

function Compute_loop ::
  "Trajectory \<Rightarrow> real \<Rightarrow> ImuPreintegration \<times> real \<times> int \<Rightarrow> fault + ImuPreintegration \<times> int" where
  "Compute_loop tr t1 (p, t, ibuf) =
     (case ImuAt (buf tr) ibuf of
        Inl e \<Rightarrow> Inl e
      | Inr d \<Rightarrow>
         (case Integrate (double_sub (time (DeBiased d (bias tr))) t) (DeBiased d (bias tr))
                 (noise tr) p of
            Inl e \<Rightarrow> Inl e
          | Inr p' \<Rightarrow>
              if ibuf + 1 = int (length (buf tr)) then Inr (p', ibuf)
              else
                (case ImuAt (buf tr) (ibuf + 1) of
                   Inl e \<Rightarrow> Inl e
                 | Inr nx \<Rightarrow>
                     if time nx \<ge> t1 then Inr (p', ibuf)
                     else Compute_loop tr t1 (p', time (DeBiased d (bias tr)), ibuf + 1))))"
  by pat_completeness auto
termination
  by (relation "measure (\<lambda>(tr, t1, p, t, ibuf). length (buf tr) - nat ibuf)")
     (auto simp: ImuAt_def split: if_splits)

declare Compute_loop.simps [simp del]

text \<open>
  \<open>ImuPreintegration::Compute\<close> of \<open>src/sv/llol/imu.cpp\<close>. \<open>MatrixSqrtUtU\<close> and the matrix
  inverse are library code outside the sources: the argument \<open>SqrtInfo\<close> stands for
  \<open>P \<mapsto> MatrixSqrtUtU(P.inverse())\<close>.
\<close>

definition Compute ::
  "(matX \<Rightarrow> matX) \<Rightarrow> Trajectory \<Rightarrow> ImuPreintegration \<Rightarrow> fault + ImuPreintegration \<times> int" where
  "Compute SqrtInfo tr p =
     (case states tr of
        [] \<Rightarrow> Inl OutOfRange
      | s0 # rest \<Rightarrow>
         (let t0 = state_time (hd (states tr)); t1 = state_time (last (states tr)) in
          if \<not> t0 < t1 then Inl (CheckFailed ''CHECK_LT(t0, t1)'')
          else
            let ibuf0 = FindNextImu (buf tr) t0 in
            if \<not> 0 \<le> ibuf0 then Inl (CheckFailed ''CHECK_LE(0, ibuf0)'')
            else
              (case Compute_loop tr t1 (p, t0, ibuf0) of
                 Inl e \<Rightarrow> Inl e
               | Inr (p1, ibuf) \<Rightarrow>
                  (case ImuAt (buf tr) ibuf of
                     Inl e \<Rightarrow> Inl e
                   | Inr d \<Rightarrow>
                      (let imu = DeBiased d (bias tr) in
                       case Integrate (double_sub t1 (time imu)) imu (noise tr) p1 of
                         Inl e \<Rightarrow> Inl e
                       | Inr p2 \<Rightarrow>
                           Inr (p2\<lparr>pre_U := SqrtInfo (pre_P p2)\<rparr>, pre_n p2))))))"

section \<open>GICP cost\<close>

text \<open>
  The cost functor. Its vector of matches is \<open>cmatches\<close> here (the grid has a field
  \<open>matches\<close> too), and its grain size, the member \<open>gsize_\<close> of the code, is
  \<open>gsize_member\<close>. The pointers \<open>pgrid\<close> and \<open>ptraj\<close> are optional values.

  Modelled from the spec: the constants and accessors of \<open>sv/llol/cost.h\<close>, which is not
  among the sources. A residual has dimension 3 and there are 6 parameters; the
  parameter vector is \<open>(r0, p0)\<close>, so the block \<open>kR0\<close> is 0 and the block \<open>kP0\<close> is 1;
  \<open>Trajectory::duration()\<close> is \<open>back.time - front.time\<close>; the grid's \<open>rows()\<close> and
  \<open>cols()\<close> are those of its score image.
\<close>

record GicpCost =
  gsize_member :: int
  cmatches :: "Match list"
  pgrid :: "SweepGrid option"
  ptraj :: "Trajectory option"
  preint :: ImuPreintegration
  imu_weight :: real
  error :: vecX

definition kResidualDim :: nat where "kResidualDim = 3"
definition kNumParams :: nat where "kNumParams = 6"
definition kR0 :: nat where "kR0 = 0"
definition kP0 :: nat where "kP0 = 1"

definition State_r0 :: "vecX \<Rightarrow> vec3" where
  "State_r0 x = segment3 x (kR0 * 3)"

definition State_p0 :: "vecX \<Rightarrow> vec3" where
  "State_p0 x = segment3 x (kP0 * 3)"

definition traj_duration :: "Trajectory \<Rightarrow> real" where
  "traj_duration tr = state_time (last (states tr)) - state_time (hd (states tr))"

text \<open>
  The constructor. The members are initialised before its body runs: the vector of
  matches is empty and both pointers are null. The members without a visible
  initialiser (\<open>preint\<close>, \<open>imu_weight\<close>, \<open>error\<close>) are arguments.
\<close>

definition GicpCost_ctor :: "ImuPreintegration \<Rightarrow> real \<Rightarrow> vecX \<Rightarrow> int \<Rightarrow> GicpCost" where
  "GicpCost_ctor preint0 weight0 error0 gsize =
     (let this = \<lparr>gsize_member = 0, cmatches = [], pgrid = None, ptraj = None,
                   preint = preint0, imu_weight = weight0, error = error0\<rparr>
      in this\<lparr>gsize_member := (if gsize \<le> 0 then int (length (cmatches this)) else gsize + 2)\<rparr>)"

definition NumResiduals :: "GicpCost \<Rightarrow> nat" where
  "NumResiduals c = length (cmatches c) * kResidualDim + (if ptraj c \<noteq> None then 6 else 0)"

text \<open>
  \<open>Match::Ok\<close> is defined in a header that is not among the sources; \<open>UpdateMatches\<close> takes
  it as the argument \<open>Ok\<close>.
\<close>

definition UpdateMatches_cell ::
  "(Match \<Rightarrow> bool) \<Rightarrow> SweepGrid \<Rightarrow> int \<Rightarrow> int \<Rightarrow> Match list \<Rightarrow> fault + Match list" where
  "UpdateMatches_cell Ok grid r c ms =
     (case MatchAt grid (c, r) of
        Inl e \<Rightarrow> Inl e
      | Inr match \<Rightarrow> if \<not> Ok match then Inr ms else Inr (ms @ [match]))"

definition UpdateMatches_row ::
  "(Match \<Rightarrow> bool) \<Rightarrow> SweepGrid \<Rightarrow> int \<Rightarrow> Match list \<Rightarrow> fault + Match list" where
  "UpdateMatches_row Ok grid r ms =
     for_each (UpdateMatches_cell Ok grid r) (upto_int (score_cols grid)) ms"

definition UpdateMatches :: "(Match \<Rightarrow> bool) \<Rightarrow> GicpCost \<Rightarrow> SweepGrid \<Rightarrow> fault + GicpCost" where
  "UpdateMatches Ok c grid =
     (case for_each (UpdateMatches_row Ok grid) (upto_int (score_rows grid)) [] of
        Inl e \<Rightarrow> Inl e
      | Inr ms \<Rightarrow> Inr (c\<lparr>pgrid := Some grid, cmatches := ms\<rparr>))"

text \<open>
  \<open>SweepGrid::TfAt\<close> is declared in \<open>sv/llol/grid.h\<close>, which is not among the sources: the
  cost functions take it as the argument \<open>TfAt\<close>, the pose of the grid at a column.
  The second argument \<open>Log\<close> is the logarithm of \<open>Sophus::SO3d\<close>.
\<close>

definition Rigid_match_body ::
  "(SweepGrid \<Rightarrow> int \<Rightarrow> SE3d) \<Rightarrow> GicpCost \<Rightarrow> SE3d \<Rightarrow> int \<Rightarrow> vecX \<times> matX option
     \<Rightarrow> fault + vecX \<times> matX option" where
  "Rigid_match_body TfAt c eT i s =
     (if \<not> (0 \<le> i \<and> i < int (length (cmatches c))) then Inl OutOfRange
      else
        case pgrid c of
          None \<Rightarrow> Inl NullPointer
        | Some g \<Rightarrow>
            let match = cmatches c ! nat i;
                cx = fst (px_g match);
                U = match_U match;
                pt_p = mean (mc_p match);
                pt_g = mean (mc_g match);
                tf_p_g = TfAt g cx;
                pt_p_hat = SE3_act tf_p_g pt_g;
                ri = kResidualDim * nat i;
                r = set_segment3 (fst s) ri (mat_vec U (vsub pt_p (SE3_act eT pt_p_hat)))
            in Inr (r,
                 (case snd s of
                    None \<Rightarrow> None
                  | Some J \<Rightarrow>
                      Some (set_block3
                              (set_block3 J ri (kR0 * 3) (mat_mul U (Hat3 pt_p_hat)))
                              ri (kP0 * 3) (mat_neg U)))))"

definition Rigid_imu_jacobian ::
  "matX \<Rightarrow> nat \<Rightarrow> mat3 \<Rightarrow> mat3 \<Rightarrow> mat3 \<Rightarrow> vec3 \<Rightarrow> matX" where
  "Rigid_imu_jacobian J offset Ua Ug R0_t_mat p1_bar =
     (let J1 = set_block3 J (offset + 3) (kR0 * 3) (mat_mul Ug R0_t_mat);
          J2 = set_block3 J1 (offset + 3) (kP0 * 3) zeroM3;
          J3 = set_block3 J2 (offset + 3) (kR0 * 3)
                 (mat_mul (mat_mul (mat_neg Ua) R0_t_mat) (Hat3 p1_bar));
          J4 = set_block3 J3 (offset + 3) (kP0 * 3) (mat_mul Ua R0_t_mat)
      in J4)"

definition GicpRigidCost_call ::
  "(SweepGrid \<Rightarrow> int \<Rightarrow> SE3d) \<Rightarrow> (SO3d \<Rightarrow> vec3) \<Rightarrow> GicpCost \<Rightarrow> vecX \<Rightarrow> vecX \<Rightarrow> matX option
     \<Rightarrow> fault + bool \<times> vecX \<times> matX option" where
  "GicpRigidCost_call TfAt Log c x r_in J_in =
     (let eR = SO3_exp (State_r0 x);
          ep = State_p0 x;
          eT = \<lparr>so3 = eR, translation = ep\<rparr>
      in case for_each (Rigid_match_body TfAt c eT) (upto_int (int (length (cmatches c))))
                (r_in, J_in) of
           Inl e \<Rightarrow> Inl e
         | Inr (r1, J1) \<Rightarrow>
            (case ptraj c of
               None \<Rightarrow> Inr (True, r1, J1)
             | Some tr \<Rightarrow>
                 if states tr = [] then Inl OutOfRange
                 else
                   let dt = duration (preint c);
                       dt2 = dt * dt;
                       g = g_pano tr;
                       st0 = hd (states tr);
                       st1 = last (states tr);
                       p0 = pos st0;
                       p1_bar = pos st1;
                       p1 = vadd (mat_vec eR p1_bar) ep;
                       R0 = rot st0;
                       R1_bar = rot st1;
                       R1 = mat_mul eR R1_bar;
                       R0_t = SO3_inverse R0;
                       dp = vsub (vscale dt (vel st0)) (vscale dt2 (vscale 0.5 g));
                       alpha' = mat_vec R0_t (vsub (vsub p1 p0) dp);
                       offset = length (cmatches c) * kResidualDim;
                       r2 = set_segment3 r1 offset
                              (Log (mat_mul (mat_mul R0_t R1) (SO3_inverse (gamma (preint c)))));
                       r3 = set_segment3 r2 (offset + 3) (vsub alpha' (alpha (preint c)));
                       U = matX_scale (pre_U (preint c)) (imu_weight c);
                       Ua = block3 U ALPHA ALPHA;
                       Uag = block3 U ALPHA THETA;
                       Ug = block3 U THETA THETA;
                       r4 = set_segment3 r3 (offset + 3)
                              (vadd (mat_vec Ua (segment3 r3 (offset + 3)))
                                    (mat_vec Uag (segment3 r3 offset)));
                       r5 = set_segment3 r4 offset (mat_vec Ug (segment3 r4 offset))
                   in Inr (True, r5,
                        (case J1 of
                           None \<Rightarrow> None
                         | Some J \<Rightarrow> Some (Rigid_imu_jacobian J offset Ua Ug R0_t p1_bar)))))"

text \<open>
  \<open>GicpRigidCost::UpdateTraj\<close>. The quotient \<open>p0 / dt\<close> is a real quotient: a duration of
  zero, where the doubles give an infinity or NaN, is outside the model.
\<close>

definition GicpRigidCost_UpdateTraj :: "GicpCost \<Rightarrow> Trajectory \<Rightarrow> fault + Trajectory" where
  "GicpRigidCost_UpdateTraj c tr =
     (case states tr of
        [] \<Rightarrow> Inl OutOfRange
      | st # rest \<Rightarrow>
          let dt = traj_duration tr;
              eR = SO3_exp (State_r0 (error c));
              st1 = st\<lparr>rot := mat_mul eR (rot st)\<rparr>;
              st2 = st1\<lparr>pos := vadd (mat_vec eR (pos st1)) (State_p0 (error c))\<rparr>;
              st3 = st2\<lparr>vel := vadd (vel st2) (vdiv (State_p0 (error c)) dt)\<rparr>
          in Inr (tr\<lparr>states := st3 # rest\<rparr>))"

definition Linear_match_body ::
  "(SweepGrid \<Rightarrow> int \<Rightarrow> SE3d) \<Rightarrow> GicpCost \<Rightarrow> SO3d \<Rightarrow> vec3 \<Rightarrow> int \<Rightarrow> vecX \<times> matX option
     \<Rightarrow> fault + vecX \<times> matX option" where
  "Linear_match_body TfAt c eR ep i s =
     (if \<not> (0 \<le> i \<and> i < int (length (cmatches c))) then Inl OutOfRange
      else
        case pgrid c of
          None \<Rightarrow> Inl NullPointer
        | Some g \<Rightarrow>
            let match = cmatches c ! nat i;
                cx = fst (px_g match);
                U = match_U match;
                pt_p = mean (mc_p match);
                pt_g = mean (mc_g match);
                tf_p_g = TfAt g cx;
                pt_p_hat = SE3_act tf_p_g pt_g;
                sc = (real_of_int cx + 0.5) / real_of_int (score_cols g);
                ri = kResidualDim * nat i;
                r = set_segment3 (fst s) ri
                      (mat_vec U (vsub pt_p (vadd (mat_vec eR pt_p_hat) (vscale sc ep))))
            in Inr (r,
                 (case snd s of
                    None \<Rightarrow> None
                  | Some J \<Rightarrow>
                      Some (set_block3
                              (set_block3 J ri (kR0 * 3) (mat_mul U (Hat3 pt_p_hat)))
                              ri (kP0 * 3) (mat_scale (- sc) U)))))"

definition GicpLinearCost_call ::
  "(SweepGrid \<Rightarrow> int \<Rightarrow> SE3d) \<Rightarrow> GicpCost \<Rightarrow> vecX \<Rightarrow> vecX \<Rightarrow> matX option
     \<Rightarrow> fault + bool \<times> vecX \<times> matX option" where
  "GicpLinearCost_call TfAt c x r_in J_in =
     (let eR = SO3_exp (State_r0 x);
          ep = State_p0 x
      in case for_each (Linear_match_body TfAt c eR ep) (upto_int (int (length (cmatches c))))
                (r_in, J_in) of
           Inl e \<Rightarrow> Inl e
         | Inr (r1, J1) \<Rightarrow>
            (case ptraj c of
               None \<Rightarrow> Inr (True, r1, J1)
             | Some tr \<Rightarrow>
                 if states tr = [] then Inl OutOfRange
                 else
                   let dt = duration (preint c);
                       dt2 = dt * dt;
                       g = g_pano tr;
                       st0 = hd (states tr);
                       st1 = last (states tr);
                       p0 = mat_vec eR (pos st0);
                       p1 = vadd (mat_vec eR (pos st1)) ep;
                       R0 = mat_mul eR (rot st0);
                       R0_t = SO3_inverse R0;
                       dp = vsub (vscale dt (vel st0)) (vscale dt2 (vscale 0.5 g));
                       alpha' = mat_vec R0_t (vsub (vsub p1 p0) dp);
                       gicp_residuals = length (cmatches c) * kResidualDim;
                       Ua = mat_scale (imu_weight c) (block3 (pre_U (preint c)) 0 0);
                       r2 = set_segment3 r1 gicp_residuals
                              (mat_vec Ua (vsub alpha' (alpha (preint c))))
                   in Inr (True, r2,
                        (case J1 of
                           None \<Rightarrow> None
                         | Some J \<Rightarrow>
                             Some (set_block3
                                     (set_block3 J gicp_residuals (kR0 * 3)
                                        (mat_mul (mat_mul Ua R0_t) (Hat3 (vsub ep dp))))
                                     gicp_residuals (kP0 * 3) (mat_mul Ua R0_t))))))"

section \<open>The filter as the specification words it\<close>

text \<open>
  The comparison \<open><=\<close> of floats, a NaN neighbour read as plus infinity, and the
  condition of the specification for the cell of column \<open>c\<close> (counted from the start of
  the active window) and row \<open>r\<close> to be good: its score is below \<open>max_score\<close> and, with
  NMS, the cell is neither in the first nor in the last column of the window and its
  score is at most that of either neighbour.
\<close>

definition fp_le :: "fp \<Rightarrow> fp \<Rightarrow> bool" where
  "fp_le a b = (fp_less a b \<or> (a = b \<and> a \<noteq> NaN))"

definition nan_as_inf :: "fp \<Rightarrow> fp" where
  "nan_as_inf a = (if a = NaN then PInf else a)"

definition cell_good_spec :: "SweepGrid \<Rightarrow> int \<Rightarrow> int \<Rightarrow> bool" where
  "cell_good_spec g c r =
     (let x = c + fst (col_rg g); m = ScoreAt g (x, r) in
      fp_less m (max_score g) \<and>
      (if nms g
       then 0 < c \<and> c < Range_size (col_rg g) - 1
            \<and> fp_le m (nan_as_inf (ScoreAt g (x - 1, r)))
            \<and> fp_le m (nan_as_inf (ScoreAt g (x + 1, r)))
       else True))"

text \<open>
  What \<open>FilterRow\<close> does to the match of a good cell: the statistics of the cell are
  computed into \<open>mc_g\<close> and the grid coordinate is stored.
\<close>

definition mark_good :: "SweepGrid \<Rightarrow> LidarScan \<Rightarrow> int \<Rightarrow> int \<Rightarrow> Match \<Rightarrow> Match" where
  "mark_good g scan c r m =
     m\<lparr>mc_g := MeanCovarAt scan (Grid2Sweep g (c, r)) (fst (cell_size g)) (mc_g m),
       px_g := (c + fst (col_rg g), r)\<rparr>"

definition filtered :: "(Match \<Rightarrow> Match) \<Rightarrow> SweepGrid \<Rightarrow> LidarScan \<Rightarrow> int \<Rightarrow> int \<Rightarrow> Match \<Rightarrow> Match" where
  "filtered Reset g scan c r m =
     (if cell_good_spec g c r then mark_good g scan c r m else Reset m)"

text \<open>
  The duration up to rounding. After \<open>n = pre_n p\<close> steps over an exact elapsed time
  \<open>S\<close>, each step having rounded one difference and one sum, the accumulated duration
  is a multiple of the smallest double within the factors \<open>(1 - eps64)^(2n)\<close> and
  \<open>(1 + eps64)^(2n)\<close> of \<open>S\<close>.
\<close>

definition dur_inv :: "ImuPreintegration \<Rightarrow> real \<Rightarrow> bool" where
  "dur_inv p S =
     (0 \<le> pre_n p \<and> 0 \<le> S \<and> on_grid (duration p)
      \<and> (1 - eps64) ^ (2 * nat (pre_n p)) * S \<le> duration p
      \<and> duration p \<le> (1 + eps64) ^ (2 * nat (pre_n p)) * S)"

section \<open>Concrete inputs\<close>

definition ex_mc :: MeanCovar3f where
  "ex_mc = \<lparr>mc_n = 1, mean = V3 1 0 0, covar = kIdent3\<rparr>"

definition ex_match :: Match where
  "ex_match = \<lparr>px_g = (0, 0), mc_g = ex_mc, mc_p = ex_mc, match_U = kIdent3\<rparr>"

definition ex_tf :: SE3d where
  "ex_tf = \<lparr>so3 = kIdent3, translation = zero3\<rparr>"

text \<open>
  A grid of 4 columns and 1 row over a sweep of 8 columns and 1 row, with cells 2 columns
  wide and 1 row high, as its constructor leaves it: every score NaN, no column range yet.
\<close>

definition ex_grid :: SweepGrid where
  "ex_grid = \<lparr>cell_size = (2, 1), max_score = Fin 1, nms = False,
              score_rows = 1, score_cols = 4, score = (\<lambda>px. NaN), col_rg = (0, 0),
              tfs = replicate 5 ex_tf, matches = replicate 4 ex_match\<rparr>"

text \<open>A slice of one row over the sweep columns \<open>rg\<close>, every pixel invalid.\<close>

definition ex_scan :: "Range \<Rightarrow> LidarScan" where
  "ex_scan rg = \<lparr>scan_t = 0, scan_dt = 1, xyzr_rows = 1, scan_col_rg = rg,
                 CurveAt = (\<lambda>px w. NaN), MeanCovarAt = (\<lambda>px w mc. mc)\<rparr>"

definition ex_state :: "real \<Rightarrow> NavState" where
  "ex_state t = \<lparr>state_time = t, rot = kIdent3, pos = zero3, vel = zero3\<rparr>"

definition ex_imu :: "real \<Rightarrow> ImuData" where
  "ex_imu t = \<lparr>time = t, acc = V3 0 0 1, gyr = zero3\<rparr>"

text \<open>A trajectory of two states, at the times 0 and 1, over the IMU buffer \<open>b\<close>.\<close>

definition ex_traj :: "ImuData list \<Rightarrow> Trajectory" where
  "ex_traj b = \<lparr>states = [ex_state 0, ex_state 1], buf = b,
                bias = \<lparr>acc_bias = zero3, gyr_bias = zero3\<rparr>,
                noise = \<lparr>sigma2 = (\<lambda>i. 0)\<rparr>, g_pano = V3 0 0 (- 1),
                T_imu_lidar = ex_tf\<rparr>"

definition ex_traj0 :: "ImuData list \<Rightarrow> ImuTrajectory" where
  "ex_traj0 b = \<lparr>traj = [ex_tf, ex_tf], traj_buf = b, traj_T_imu_lidar = ex_tf\<rparr>"

definition ex_preint :: ImuPreintegration where
  "ex_preint = \<lparr>duration = 0, pre_n = 0, pre_F = matX_identity, pre_P = matX_zero,
                alpha = zero3, beta = zero3, gamma = kIdent3, pre_U = matX_identity\<rparr>"

definition ex_cost :: GicpCost where
  "ex_cost = GicpCost_ctor ex_preint 1 (\<lambda>i. 0) 0"

text \<open>A cost functor over two matches of \<open>ex_grid\<close>, with no trajectory attached.\<close>

definition ex_cost2 :: GicpCost where
  "ex_cost2 = ex_cost\<lparr>cmatches := [ex_match, ex_match], pgrid := Some ex_grid\<rparr>"

text \<open>The same with a trajectory attached, whose last state is at \<open>(1, 2, 3)\<close>.\<close>

definition ex_traj_moved :: Trajectory where
  "ex_traj_moved = (ex_traj [])\<lparr>states := [ex_state 0, (ex_state 1)\<lparr>pos := V3 1 2 3\<rparr>]\<rparr>"

definition ex_cost3 :: GicpCost where
  "ex_cost3 = ex_cost2\<lparr>ptraj := Some ex_traj_moved\<rparr>"

text \<open>
  A grid of one row and 7 columns with NMS on, the whole row active, with the scores
  \<open>NaN, 0.9, 0.2, 0.5, 0.1, 0.3, NaN\<close> and \<open>max_score = 0.8\<close>; and a \<open>Reset\<close> that
  marks the grid coordinate of a match as bad.
\<close>

definition ex_nms_grid :: SweepGrid where
  "ex_nms_grid = \<lparr>cell_size = (1, 1), max_score = Fin (8 / 10), nms = True,
      score_rows = 1, score_cols = 7,
      score = (\<lambda>px. if px = (1, 0) then Fin (9 / 10) else if px = (2, 0) then Fin (2 / 10)
                 else if px = (3, 0) then Fin (5 / 10) else if px = (4, 0) then Fin (1 / 10)
                 else if px = (5, 0) then Fin (3 / 10) else NaN),
      col_rg = (0, 7), tfs = replicate 8 ex_tf, matches = replicate 7 ex_match\<rparr>"

definition ex_Reset :: "Match \<Rightarrow> Match" where
  "ex_Reset m = m\<lparr>px_g := (- 100, - 100)\<rparr>"

text \<open>
  The doubles nearest to 0.2, to 0.9 and to 0.7, and the double just below the one
  nearest to 0.9; a trajectory over the window from 0 to 0.9 with one sample at 0.2.
\<close>

definition d02 :: real where "d02 = 7205759403792794 / 2 ^ 55"
definition d09 :: real where "d09 = 8106479329266893 / 2 ^ 53"
definition d07 :: real where "d07 = 6305039478318694 / 2 ^ 53"
definition d09_below :: real where "d09_below = 8106479329266892 / 2 ^ 53"

definition ex_traj_09 :: Trajectory where
  "ex_traj_09 = (ex_traj [ex_imu d02])\<lparr>states := [ex_state 0, ex_state d09]\<rparr>"

section \<open>Rounding to doubles\<close>

lemma round_even_error: "\<bar>of_int (round_even y) - y\<bar> \<le> 1 / 2"
proof -
  have "of_int \<lfloor>y\<rfloor> \<le> y" "y < of_int \<lfloor>y\<rfloor> + 1" by linarith+
  then show ?thesis by (auto simp: round_even_def Let_def)
qed

lemma round_even_of_int: "round_even (of_int m) = m"
  by (simp add: round_even_def)

lemma fl64_exp_eq:
  assumes "2 powr (of_int e + 52) \<le> \<bar>x\<bar>" "\<bar>x\<bar> < 2 powr (of_int e + 53)" "- 1074 \<le> e"
  shows "fl64_exp x = e"
proof -
  have x: "0 < \<bar>x\<bar>" using assms(1) by (smt (verit) powr_gt_zero)
  have "of_int e + 52 \<le> log 2 \<bar>x\<bar>" using assms(1) x by (simp add: le_log_iff)
  moreover have "log 2 \<bar>x\<bar> < of_int e + 53" using assms(2) x by (simp add: log_less_iff)
  ultimately have "\<lfloor>log 2 \<bar>x\<bar>\<rfloor> = e + 52" by linarith
  with assms(3) show ?thesis by (simp add: fl64_exp_def)
qed

lemma fl64_eval:
  assumes "2 powr (of_int e + 52) \<le> \<bar>x\<bar>" "\<bar>x\<bar> < 2 powr (of_int e + 53)" "- 1074 \<le> e"
  shows "fl64 x = of_int (round_even (x / 2 powr of_int e)) * 2 powr of_int e"
proof -
  have "x \<noteq> 0" using assms(1) by (smt (verit) powr_gt_zero)
  with fl64_exp_eq [OF assms] show ?thesis by (simp add: fl64_def)
qed

lemma fl64_zero: "fl64 0 = 0"
  by (simp add: fl64_def)


lemma fl64_exp_ge: "- 1074 \<le> fl64_exp x"
  by (simp add: fl64_exp_def)

lemma two_powr_grid:
  assumes "- 1074 \<le> e"
  shows "(2 :: real) powr of_int e = of_int (2 ^ nat (e + 1074)) * 2 powr (- 1074)"
proof -
  have "(2 :: real) powr of_int e = 2 powr (of_nat (nat (e + 1074)) + (- 1074))"
    using assms by simp
  also have "\<dots> = 2 powr of_nat (nat (e + 1074)) * 2 powr (- 1074)"
    by (rule powr_add)
  also have "(2 :: real) powr of_nat (nat (e + 1074)) = (2 :: real) ^ nat (e + 1074)"
    by (simp add: powr_realpow)
  finally show ?thesis by simp
qed

lemma on_grid_fl64: "on_grid (fl64 x)"
proof (cases "x = 0")
  case True
  then show ?thesis by (auto simp: fl64_def on_grid_def intro: exI [of _ 0])
next
  case False
  let ?e = "fl64_exp x"
  let ?r = "round_even (x / 2 powr of_int ?e)"
  have "fl64 x = of_int (?r * 2 ^ nat (?e + 1074)) * 2 powr (- 1074)"
    using False two_powr_grid [OF fl64_exp_ge, of x] by (simp add: fl64_def)
  then show ?thesis unfolding on_grid_def by blast
qed

lemma on_grid_add: "on_grid a \<Longrightarrow> on_grid b \<Longrightarrow> on_grid (a + b)"
  unfolding on_grid_def
proof -
  assume "\<exists>m :: int. a = of_int m * 2 powr (- 1074)" "\<exists>m :: int. b = of_int m * 2 powr (- 1074)"
  then obtain m n :: int where "a = of_int m * 2 powr (- 1074)" "b = of_int n * 2 powr (- 1074)"
    by blast
  then have "a + b = of_int (m + n) * 2 powr (- 1074)" by (simp add: algebra_simps)
  then show "\<exists>k :: int. a + b = of_int k * 2 powr (- 1074)" by blast
qed

lemma on_grid_diff: "on_grid a \<Longrightarrow> on_grid b \<Longrightarrow> on_grid (a - b)"
  unfolding on_grid_def
proof -
  assume "\<exists>m :: int. a = of_int m * 2 powr (- 1074)" "\<exists>m :: int. b = of_int m * 2 powr (- 1074)"
  then obtain m n :: int where "a = of_int m * 2 powr (- 1074)" "b = of_int n * 2 powr (- 1074)"
    by blast
  then have "a - b = of_int (m - n) * 2 powr (- 1074)" by (simp add: algebra_simps)
  then show "\<exists>k :: int. a - b = of_int k * 2 powr (- 1074)" by blast
qed

lemma is_double_on_grid: "is_double x \<Longrightarrow> on_grid x"
  using on_grid_fl64 [of x] by (simp add: is_double_def)

lemma on_grid_zero: "on_grid 0"
  by (auto simp: on_grid_def intro: exI [of _ 0])

lemma fl64_error:
  assumes "on_grid x"
  shows "\<bar>fl64 x - x\<bar> \<le> eps64 * \<bar>x\<bar>"
proof (cases "x = 0")
  case True
  then show ?thesis by (simp add: fl64_def)
next
  case False
  let ?l = "\<lfloor>log 2 \<bar>x\<bar>\<rfloor>"
  have xp: "0 < \<bar>x\<bar>" using False by simp
  show ?thesis
  proof (cases "- 1074 \<le> ?l - 52")
    case True
    then have e: "fl64_exp x = ?l - 52" by (simp add: fl64_exp_def)
    let ?p = "(2 :: real) powr of_int (?l - 52)"
    have pp: "0 < ?p" by simp
    have "\<bar>of_int (round_even (x / ?p)) - x / ?p\<bar> \<le> 1 / 2" by (rule round_even_error)
    then have A: "\<bar>of_int (round_even (x / ?p)) - x / ?p\<bar> * ?p \<le> 1 / 2 * ?p"
      using pp by (intro mult_right_mono) auto
    have B: "\<bar>of_int (round_even (x / ?p)) - x / ?p\<bar> * ?p
        = \<bar>of_int (round_even (x / ?p)) * ?p - x\<bar>"
    proof -
      have "\<bar>of_int (round_even (x / ?p)) - x / ?p\<bar> * ?p
          = \<bar>(of_int (round_even (x / ?p)) - x / ?p) * ?p\<bar>"
        using pp by (simp add: abs_mult)
      also have "(of_int (round_even (x / ?p)) - x / ?p) * ?p
          = of_int (round_even (x / ?p)) * ?p - x"
        using pp by (simp add: field_simps)
      finally show ?thesis .
    qed
    have C: "fl64 x = of_int (round_even (x / ?p)) * ?p"
      using False e by (simp add: fl64_def)
    have err: "\<bar>fl64 x - x\<bar> \<le> 1 / 2 * ?p"
      unfolding C B [symmetric] by (rule A)
    have lx: "2 powr of_int ?l \<le> \<bar>x\<bar>"
      using le_log_iff [of 2 "\<bar>x\<bar>" "of_int ?l"] xp by simp
    have "?p = 2 powr of_int ?l * 2 powr (- 52)"
      by (simp add: powr_add [symmetric])
    also have "(2 :: real) powr (- 52) = 1 / 2 ^ 52"
      by (simp add: powr_minus inverse_eq_divide)
    finally have "1 / 2 * ?p = eps64 * 2 powr of_int ?l"
      by (simp add: eps64_def)
    also have "\<dots> \<le> eps64 * \<bar>x\<bar>"
      using lx by (intro mult_left_mono) (simp_all add: eps64_def)
    finally have "1 / 2 * ?p \<le> eps64 * \<bar>x\<bar>" .
    with err show ?thesis by linarith
  next
    case False
    then have e: "fl64_exp x = - 1074" by (simp add: fl64_exp_def)
    from assms obtain m :: int where m: "x = of_int m * 2 powr (- 1074)"
      unfolding on_grid_def by blast
    have "x / 2 powr (- 1074) = of_int m" using m by simp
    then have "fl64 x = x"
      using \<open>x \<noteq> 0\<close> e m by (simp add: fl64_def round_even_of_int)
    then show ?thesis by (simp add: eps64_def)
  qed
qed

lemma fl64_bounds:
  assumes "on_grid x" "0 \<le> x"
  shows "(1 - eps64) * x \<le> fl64 x" "fl64 x \<le> (1 + eps64) * x"
  using fl64_error [OF assms(1)] assms(2) by (simp_all add: algebra_simps abs_le_iff)

lemma fl64_pos_imp:
  assumes "on_grid x" "0 < fl64 x"
  shows "0 < x"
proof (rule ccontr)
  assume "\<not> 0 < x"
  then have x: "x \<le> 0" by simp
  have e: "eps64 < 1" "0 < eps64" by (simp_all add: eps64_def)
  from fl64_error [OF assms(1)] x have "fl64 x \<le> x - eps64 * x"
    by (simp add: abs_le_iff algebra_simps)
  also have "x - eps64 * x = (1 - eps64) * x" by (simp add: algebra_simps)
  also have "\<dots> \<le> 0" using x e by (simp add: mult_nonneg_nonpos)
  finally show False using assms(2) by simp
qed

section \<open>Loops, vectors and blocks\<close>

lemma for_each_append:
  "for_each body (xs @ ys) s =
     (case for_each body xs s of Inl e \<Rightarrow> Inl e | Inr s' \<Rightarrow> for_each body ys s')"
  by (induction xs arbitrary: s) (auto split: sum.splits)

lemma for_each_upt_total:
  assumes "P 0 s"
    and "\<And>i s. i < k \<Longrightarrow> P i s \<Longrightarrow> \<exists>s'. body (int i) s = Inr s' \<and> P (Suc i) s'"
  shows "\<exists>s'. for_each body (map int [0 ..< k]) s = Inr s' \<and> P k s'"
  using assms(2)
proof (induction k)
  case 0
  with assms(1) show ?case by simp
next
  case (Suc k)
  then obtain s1 where s1: "for_each body (map int [0 ..< k]) s = Inr s1" "P k s1"
    by (metis less_Suc_eq)
  from Suc.prems [OF _ s1(2)] obtain s2 where "body (int k) s1 = Inr s2" "P (Suc k) s2"
    by auto
  with s1 show ?case by (simp add: for_each_append)
qed

lemma for_each_upt_invariant:
  assumes "for_each body (map int [0 ..< k]) s = Inr s'"
    and "P 0 s"
    and "\<And>i s s'. i < k \<Longrightarrow> P i s \<Longrightarrow> body (int i) s = Inr s' \<Longrightarrow> P (Suc i) s'"
  shows "P k s'"
  using assms(1,3)
proof (induction k arbitrary: s')
  case 0
  with assms(2) show ?case by simp
next
  case (Suc k)
  from Suc.prems(1) obtain s1 where s1: "for_each body (map int [0 ..< k]) s = Inr s1"
    and b: "body (int k) s1 = Inr s'"
    by (auto simp: for_each_append split: sum.splits)
  have "P k s1" using Suc.IH [OF s1] Suc.prems(2) by (metis less_Suc_eq)
  with b Suc.prems(2) show ?case by blast
qed

lemma upto_int_of_nat: "upto_int (int n) = map int [0 ..< n]"
  by (simp add: upto_int_def)

lemma SO3_exp_zero: "SO3_exp (V3 0 0 0) = kIdent3"
  by (simp add: SO3_exp_def)

lemma mat_vec_ident: "mat_vec kIdent3 v = v"
  by (cases v) (simp add: kIdent3_def)

lemma vadd_zero: "vadd v zero3 = v"
  by (cases v) (simp add: zero3_def)

lemma vsub_self: "vsub v v = zero3"
  by (cases v) (simp add: zero3_def)

lemma mat_vec_zero: "mat_vec U zero3 = zero3"
  by (cases U; cases "mrow U 0"; cases "mrow U 1"; cases "mrow U 2") (simp add: zero3_def)

lemma vscale_zero: "vscale s zero3 = zero3"
  by (simp add: zero3_def)

lemma set_segment3_zero:
  "set_segment3 r k zero3 j = (if k \<le> j \<and> j < k + 3 then 0 else r j)"
  by (simp add: set_segment3_def zero3_def)


lemma block3_set_block3_same: "block3 (set_block3 M r c B) r c = B"
proof -
  obtain a b c' d e f g h i where B: "B = M3 (V3 a b c') (V3 d e f) (V3 g h i)"
    by (metis mat3.exhaust vec3.exhaust)
  show ?thesis by (simp add: B block3_def set_block3_def mnth_def)
qed

lemma block3_set_block3_other:
  "r + 3 \<le> r' \<or> r' + 3 \<le> r \<or> c + 3 \<le> c' \<or> c' + 3 \<le> c \<Longrightarrow>
   block3 (set_block3 M r c B) r' c' = block3 M r' c'"
  by (auto simp: block3_def set_block3_def)

text \<open>
  The four block writes of the IMU part leave what the two writes of the alpha block
  alone would leave: the gamma block and the zero block are written at the same place
  and overwritten.
\<close>

lemma Rigid_imu_jacobian_alpha_only:
  "Rigid_imu_jacobian J offset Ua Ug R0_t_mat p1_bar =
     set_block3
       (set_block3 J (offset + 3) 0 (mat_mul (mat_mul (mat_neg Ua) R0_t_mat) (Hat3 p1_bar)))
       (offset + 3) 3 (mat_mul Ua R0_t_mat)"
proof -
  have "set_block3 (set_block3 (set_block3 (set_block3 J (offset + 3) 0 A) (offset + 3) 3 Z)
            (offset + 3) 0 B) (offset + 3) 3 C
        = set_block3 (set_block3 J (offset + 3) 0 B) (offset + 3) 3 C" for A Z B C
    by (auto simp: set_block3_def fun_eq_iff)
  then show ?thesis by (simp add: Rigid_imu_jacobian_def Let_def kR0_def kP0_def)
qed

section \<open>Properties of the sweep grid\<close>

lemmas grid_defs = Add_def Check_def Score_def Score_body_def ScoreRow_def ScoreRow_body_def
  Filter_def Filter_body_def FilterRow_def FilterRow_body_def IsCellGood_def ScoreAt_def
  MatchAt_def set_MatchAt_def Px2Ind_def Grid2Sweep_def Range_div_def Range_size_def
  cdiv_def cmod_def upto_int_def isnan_def fp_greater_def

text \<open>
  C4. Two consecutive slices tile the sweep columns \<open>[0, 8)\<close> of the grid \<open>ex_grid\<close>
  (4 columns of cells 2 wide): \<open>[0, 4)\<close> and then \<open>[4, 8)\<close>, each of one row, each
  beginning where the previous one ended. \<open>Add\<close> accepts the first and leaves the column
  range \<open>(0, 2)\<close> in cell units; on the second, \<open>Check\<close> compares the start 4 with
  \<open>(2 * 2) % 4 = 0\<close>, the end taken modulo the number of cell columns and not modulo the
  sweep width, and the check of the slice boundary fails.
\<close>

theorem Add_rejects_second_tiling_slice:
  "(case Add Reset ex_grid (ex_scan (0, 4)) 0 of
      Inl e \<Rightarrow> Inl e
    | Inr (g, n1, n2) \<Rightarrow>
        map_sum id (\<lambda>(g', n1', n2'). col_rg g') (Add Reset g (ex_scan (4, 8)) 0))
   = Inl (CheckFailed
       ''CHECK_EQ(scan.col_rg.start, (col_rg.end * cell_size.width) % score.cols)'')"
  by (simp add: grid_defs ex_grid_def ex_scan_def upt_rec)

text \<open>
  The test of the code, \<open>not (m > l)\<close>, against the words of the specification,
  \<open>m <= l\<close> with a NaN \<open>l\<close> read as plus infinity: they agree for a score \<open>m\<close> that
  is not NaN, which is what the threshold test leaves.
\<close>

lemma not_greater_iff_le:
  "m \<noteq> NaN \<Longrightarrow> (\<not> fp_greater m l) = fp_le m (nan_as_inf l)"
  by (cases m; cases l) (auto simp: fp_greater_def fp_le_def nan_as_inf_def)

lemma fp_less_not_NaN: "fp_less m b \<Longrightarrow> m \<noteq> NaN"
  by (cases m) auto

lemma IsCellGood_spec:
  assumes "0 \<le> c" "c < Range_size (col_rg g)"
  shows "((if nms g then 1 else 0) \<le> c \<and> c < Range_size (col_rg g) - (if nms g then 1 else 0)
     \<and> IsCellGood g (c + fst (col_rg g), r)) = cell_good_spec g c r"
proof (cases "fp_less (ScoreAt g (c + fst (col_rg g), r)) (max_score g)")
  case True
  note nn = not_greater_iff_le [OF fp_less_not_NaN [OF True]]
  from True assms show ?thesis
    by (cases "nms g") (auto simp: IsCellGood_def cell_good_spec_def Let_def nn [symmetric])
next
  case False
  then show ?thesis by (simp add: IsCellGood_def cell_good_spec_def Let_def)
qed

lemma FilterRow_body_step:
  assumes c: "0 \<le> c" "c < Range_size (col_rg g)"
    and "0 \<le> r * score_cols g + fst (col_rg g) + c"
    and "r * score_cols g + fst (col_rg g) + c < int (length ms)"
  shows "FilterRow_body Reset scan r c (g\<lparr>matches := ms\<rparr>, n) =
           Inr (g\<lparr>matches := ms[nat (r * score_cols g + fst (col_rg g) + c) :=
                     filtered Reset g scan c r (ms ! nat (r * score_cols g + fst (col_rg g) + c))]\<rparr>,
                n + (if cell_good_spec g c r then 1 else 0))"
proof -
  have ix: "Px2Ind (g\<lparr>matches := ms\<rparr>) (c + fst (col_rg g), r)
              = r * score_cols g + fst (col_rg g) + c"
    by (simp add: Px2Ind_def)
  have good: "((if nms g then 1 else 0) \<le> c
        \<and> c < Range_size (col_rg g) - (if nms g then 1 else 0)
        \<and> IsCellGood (g\<lparr>matches := ms\<rparr>) (c + fst (col_rg g), r)) = cell_good_spec g c r"
  proof -
    have "IsCellGood (g\<lparr>matches := ms\<rparr>) (c + fst (col_rg g), r)
            = IsCellGood g (c + fst (col_rg g), r)"
      by (simp add: IsCellGood_def ScoreAt_def)
    with IsCellGood_spec [OF c, of r] show ?thesis by simp
  qed
  show ?thesis
  proof (cases "cell_good_spec g c r")
    case True
    with good have "(if nms g then 1 else 0) \<le> c"
      "c < Range_size (col_rg g) - (if nms g then 1 else 0)"
      "IsCellGood (g\<lparr>matches := ms\<rparr>) (c + fst (col_rg g), r)" by blast+
    with assms True show ?thesis
      by (simp add: FilterRow_body_def MatchAt_def set_MatchAt_def ix Let_def filtered_def
          mark_good_def Grid2Sweep_def)
  next
    case False
    with good have "\<not> ((if nms g then 1 else 0) \<le> c
        \<and> c < Range_size (col_rg g) - (if nms g then 1 else 0)
        \<and> IsCellGood (g\<lparr>matches := ms\<rparr>) (c + fst (col_rg g), r))" by blast
    with assms False show ?thesis
      by (simp add: FilterRow_body_def MatchAt_def set_MatchAt_def ix Let_def filtered_def)
  qed
qed


lemma cell_index_unique:
  fixes r r' x x' n :: int
  assumes "r * n + x = r' * n + x'" "0 \<le> x" "x < n" "0 \<le> x'" "x' < n"
  shows "r = r'"
proof (rule ccontr)
  assume ne: "r \<noteq> r'"
  have n: "0 \<le> n" using assms by linarith
  show False
  proof (cases "r < r'")
    case True
    then have "(r + 1) * n \<le> r' * n" using n by (intro mult_right_mono) auto
    with assms show False by (simp add: algebra_simps)
  next
    case False
    with ne have "(r' + 1) * n \<le> r * n" using n by (intro mult_right_mono) auto
    with assms show False by (simp add: algebra_simps)
  qed
qed

lemma FilterRow_row:
  assumes rng: "\<forall>c. 0 \<le> c \<and> c < Range_size (col_rg g) \<longrightarrow>
             0 \<le> b + c \<and> b + c < int (length ms)"
    and b: "b = r * score_cols g + fst (col_rg g)"
  shows "\<exists>ms' n. FilterRow Reset scan r (g\<lparr>matches := ms\<rparr>) = Inr (g\<lparr>matches := ms'\<rparr>, n)
     \<and> length ms' = length ms
     \<and> (\<forall>j < length ms. ms' ! j =
           (if b \<le> int j \<and> int j < b + Range_size (col_rg g)
            then filtered Reset g scan (int j - b) r (ms ! j) else ms ! j))"
proof -
  let ?K = "nat (Range_size (col_rg g))"
  let ?P = "\<lambda>k (s :: SweepGrid \<times> int). \<exists>ms'. fst s = g\<lparr>matches := ms'\<rparr>
     \<and> length ms' = length ms
     \<and> (\<forall>j < length ms. ms' ! j =
           (if b \<le> int j \<and> int j < b + int k
            then filtered Reset g scan (int j - b) r (ms ! j) else ms ! j))"
  have "\<exists>s'. for_each (FilterRow_body Reset scan r) (map int [0 ..< ?K]) (g\<lparr>matches := ms\<rparr>, 0)
          = Inr s' \<and> ?P ?K s'"
  proof (rule for_each_upt_total)
    show "?P 0 (g\<lparr>matches := ms\<rparr>, 0)" by (rule exI [of _ ms]) auto
  next
    fix i and s :: "SweepGrid \<times> int"
    assume i: "i < ?K" and P: "?P i s"
    then obtain ms' where ms': "fst s = g\<lparr>matches := ms'\<rparr>" "length ms' = length ms"
      "\<forall>j < length ms. ms' ! j =
           (if b \<le> int j \<and> int j < b + int i
            then filtered Reset g scan (int j - b) r (ms ! j) else ms ! j)" by auto
    have c: "0 \<le> int i" "int i < Range_size (col_rg g)" using i by auto
    with rng have in_rng: "0 \<le> b + int i" "b + int i < int (length ms)" by auto
    have s: "s = (g\<lparr>matches := ms'\<rparr>, snd s)" using ms'(1) by (cases s) simp
    have old: "ms' ! nat (b + int i) = ms ! nat (b + int i)"
      using ms'(3) in_rng by auto
    have step: "FilterRow_body Reset scan r (int i) s =
           Inr (g\<lparr>matches := ms'[nat (b + int i) :=
                     filtered Reset g scan (int i) r (ms ! nat (b + int i))]\<rparr>,
                snd s + (if cell_good_spec g (int i) r then 1 else 0))"
      using FilterRow_body_step [OF c, of r ms' Reset scan "snd s"] in_rng ms'(2) old
      by (subst s) (simp add: b)
    have "?P (Suc i) (g\<lparr>matches := ms'[nat (b + int i) :=
                     filtered Reset g scan (int i) r (ms ! nat (b + int i))]\<rparr>,
                snd s + (if cell_good_spec g (int i) r then 1 else 0))"
    proof (intro exI [of _ "ms'[nat (b + int i) :=
                     filtered Reset g scan (int i) r (ms ! nat (b + int i))]"] conjI allI impI)
      fix j assume j: "j < length ms"
      show "ms'[nat (b + int i) := filtered Reset g scan (int i) r (ms ! nat (b + int i))] ! j =
           (if b \<le> int j \<and> int j < b + int (Suc i)
            then filtered Reset g scan (int j - b) r (ms ! j) else ms ! j)"
      proof (cases "j = nat (b + int i)")
        case True
        then have "int j = b + int i" using in_rng by simp
        with True j ms'(2) show ?thesis by simp
      next
        case False
        then have "int j \<noteq> b + int i" using in_rng by auto
        with False j ms'(3) show ?thesis by auto
      qed
    qed (simp_all add: ms'(2))
    with step show "\<exists>s'. FilterRow_body Reset scan r (int i) s = Inr s' \<and> ?P (Suc i) s'"
      by blast
  qed
  then obtain g' n ms' where
    "for_each (FilterRow_body Reset scan r) (map int [0 ..< ?K]) (g\<lparr>matches := ms\<rparr>, 0)
       = Inr (g', n)" "g' = g\<lparr>matches := ms'\<rparr>" "length ms' = length ms"
    "\<forall>j < length ms. ms' ! j =
           (if b \<le> int j \<and> int j < b + int ?K
            then filtered Reset g scan (int j - b) r (ms ! j) else ms ! j)"
    by auto
  moreover have "b \<le> int j \<and> int j < b + int ?K \<longleftrightarrow> b \<le> int j \<and> int j < b + Range_size (col_rg g)" for j
    by auto
  ultimately show ?thesis
    by (auto simp: FilterRow_def upto_int_def)
qed


lemma cell_index_in_range:
  fixes r x rows cols :: int
  assumes "0 \<le> r" "r < rows" "0 \<le> x" "x < cols"
  shows "0 \<le> r * cols + x \<and> r * cols + x < rows * cols"
proof -
  have c: "0 \<le> cols" using assms by linarith
  have "(r + 1) * cols \<le> rows * cols" using assms c by (intro mult_right_mono) auto
  moreover have "0 \<le> r * cols" using assms c by simp
  ultimately show ?thesis using assms by (simp add: algebra_simps)
qed

lemma Filter_rows:
  assumes wf: "0 \<le> fst (col_rg g)" "snd (col_rg g) \<le> score_cols g"
      "int (length (matches g)) = score_rows g * score_cols g"
  shows "\<exists>ms' n. for_each (Filter_body Reset scan) (map int [0 ..< nat (score_rows g)]) (g, 0)
              = Inr (g\<lparr>matches := ms'\<rparr>, n)
     \<and> length ms' = length (matches g)
     \<and> (\<forall>r c. 0 \<le> r \<and> r < score_rows g \<and> 0 \<le> c \<and> c < Range_size (col_rg g) \<longrightarrow>
           ms' ! nat (r * score_cols g + fst (col_rg g) + c) =
             filtered Reset g scan c r
               (matches g ! nat (r * score_cols g + fst (col_rg g) + c)))"
proof -
  let ?ms0 = "matches g"
  let ?idx = "\<lambda>r c. r * score_cols g + fst (col_rg g) + c"
  let ?act = "\<lambda>r c. 0 \<le> r \<and> r < score_rows g \<and> 0 \<le> c \<and> c < Range_size (col_rg g)"
  let ?Q = "\<lambda>k (s :: SweepGrid \<times> int). \<exists>ms'. fst s = g\<lparr>matches := ms'\<rparr>
     \<and> length ms' = length ?ms0
     \<and> (\<forall>r c. ?act r c \<longrightarrow>
           ms' ! nat (?idx r c) =
             (if r < int k then filtered Reset g scan c r (?ms0 ! nat (?idx r c))
              else ?ms0 ! nat (?idx r c)))"
  have inr: "0 \<le> ?idx r c \<and> ?idx r c < int (length ?ms0)" if "?act r c" for r c
  proof -
    from that wf have "0 \<le> fst (col_rg g) + c" "fst (col_rg g) + c < score_cols g"
      by (auto simp: Range_size_def)
    from cell_index_in_range [OF _ _ this, of r "score_rows g"] that wf(3)
    show ?thesis by (simp add: add.assoc)
  qed
  have "\<exists>s'. for_each (Filter_body Reset scan) (map int [0 ..< nat (score_rows g)]) (g, 0)
          = Inr s' \<and> ?Q (nat (score_rows g)) s'"
  proof (rule for_each_upt_total)
    show "?Q 0 (g, 0)" by (rule exI [of _ ?ms0]) auto
  next
    fix i and s :: "SweepGrid \<times> int"
    assume i: "i < nat (score_rows g)" and Q: "?Q i s"
    then obtain ms' where ms': "fst s = g\<lparr>matches := ms'\<rparr>" "length ms' = length ?ms0"
      "\<forall>r c. ?act r c \<longrightarrow>
           ms' ! nat (?idx r c) =
             (if r < int i then filtered Reset g scan c r (?ms0 ! nat (?idx r c))
              else ?ms0 ! nat (?idx r c))" by auto
    have ri: "0 \<le> int i" "int i < score_rows g" using i by auto
    let ?b = "int i * score_cols g + fst (col_rg g)"
    have rng: "\<forall>c. 0 \<le> c \<and> c < Range_size (col_rg g) \<longrightarrow>
                 0 \<le> ?b + c \<and> ?b + c < int (length ms')"
      using inr [of "int i"] ri ms'(2) by auto
    from FilterRow_row [OF rng refl, of Reset scan]
    obtain ms'' n where row: "FilterRow Reset scan (int i) (g\<lparr>matches := ms'\<rparr>)
          = Inr (g\<lparr>matches := ms''\<rparr>, n)"
      and len: "length ms'' = length ms'"
      and nth: "\<forall>j < length ms'. ms'' ! j =
           (if ?b \<le> int j \<and> int j < ?b + Range_size (col_rg g)
            then filtered Reset g scan (int j - ?b) (int i) (ms' ! j) else ms' ! j)"
      by blast
    have step: "Filter_body Reset scan (int i) s = Inr (g\<lparr>matches := ms''\<rparr>, snd s + n)"
      using row ms'(1) by (simp add: Filter_body_def)
    have "?Q (Suc i) (g\<lparr>matches := ms''\<rparr>, snd s + n)"
    proof (intro exI [of _ ms''] conjI allI impI)
      fix r c assume act: "?act r c"
      from inr [OF act] ms'(2) have j: "nat (?idx r c) < length ms'"
        and ij: "int (nat (?idx r c)) = ?idx r c" by auto
      show "ms'' ! nat (?idx r c) =
             (if r < int (Suc i) then filtered Reset g scan c r (?ms0 ! nat (?idx r c))
              else ?ms0 ! nat (?idx r c))"
      proof (cases "r = int i")
        case True
        with act have "?b \<le> ?idx r c \<and> ?idx r c < ?b + Range_size (col_rg g)"
          "?idx r c - ?b = c" by auto
        with nth [rule_format, OF j] ij ms'(3) [rule_format, OF act] True
        show ?thesis by simp
      next
        case False
        have "\<not> (?b \<le> ?idx r c \<and> ?idx r c < ?b + Range_size (col_rg g))"
        proof
          assume in_b: "?b \<le> ?idx r c \<and> ?idx r c < ?b + Range_size (col_rg g)"
          let ?c' = "?idx r c - ?b"
          have eq: "r * score_cols g + (fst (col_rg g) + c)
                = int i * score_cols g + (fst (col_rg g) + ?c')" by simp
          from in_b have c': "0 \<le> ?c'" "?c' < Range_size (col_rg g)" by auto
          from act wf have x: "0 \<le> fst (col_rg g) + c" "fst (col_rg g) + c < score_cols g"
            by (auto simp: Range_size_def)
          from c' wf have x': "0 \<le> fst (col_rg g) + ?c'" "fst (col_rg g) + ?c' < score_cols g"
            by (auto simp: Range_size_def)
          from cell_index_unique [OF eq x x'] False show False by simp
        qed
        with nth [rule_format, OF j] ij ms'(3) [rule_format, OF act] False
        show ?thesis by auto
      qed
    qed (simp_all add: len ms'(2))
    with step show "\<exists>s'. Filter_body Reset scan (int i) s = Inr s' \<and> ?Q (Suc i) s'"
      by blast
  qed
  then obtain g' n ms' where
    r: "for_each (Filter_body Reset scan) (map int [0 ..< nat (score_rows g)]) (g, 0)
       = Inr (g', n)" "g' = g\<lparr>matches := ms'\<rparr>" "length ms' = length ?ms0"
    "\<forall>r c. ?act r c \<longrightarrow>
           ms' ! nat (?idx r c) =
             (if r < int (nat (score_rows g)) then filtered Reset g scan c r (?ms0 ! nat (?idx r c))
              else ?ms0 ! nat (?idx r c))"
    by auto
  have "\<forall>r c. ?act r c \<longrightarrow>
           ms' ! nat (?idx r c) = filtered Reset g scan c r (?ms0 ! nat (?idx r c))"
    using r(4) by auto
  with r(1,2,3) show ?thesis by blast
qed


text \<open>
  C5. On a grid whose column range is the one of the slice in cell units and lies inside
  the grid, with a cell array of \<open>rows * cols\<close> matches, \<open>Filter\<close> returns, and for every
  cell of the active window (column \<open>c\<close> counted from the start of the window, row \<open>r\<close>)
  the match of the cell is marked good (its statistics computed, its grid coordinate
  stored) when the cell is good in the words of the specification, \<open>cell_good_spec\<close>,
  and is reset otherwise; with NMS on, the cells of the first and the last column of the
  window are reset whatever their score.
\<close>

theorem Filter_marks_good_cells:
  assumes "fst (cell_size g) \<noteq> 0"
    and "cdiv (fst (scan_col_rg scan)) (fst (cell_size g)) = fst (col_rg g)"
    and "cdiv (snd (scan_col_rg scan)) (fst (cell_size g)) = snd (col_rg g)"
    and "0 \<le> fst (col_rg g)" and "snd (col_rg g) \<le> score_cols g"
    and "int (length (matches g)) = score_rows g * score_cols g"
  shows "\<exists>g' n. Filter Reset g scan gsize = Inr (g', n)
     \<and> (\<forall>r c. 0 \<le> r \<and> r < score_rows g \<and> 0 \<le> c \<and> c < Range_size (col_rg g) \<longrightarrow>
          (\<exists>m. MatchAt g (c + fst (col_rg g), r) = Inr m
             \<and> MatchAt g' (c + fst (col_rg g), r) =
                 Inr (if cell_good_spec g c r then mark_good g scan c r m else Reset m)
             \<and> (nms g \<and> (c = 0 \<or> c = Range_size (col_rg g) - 1) \<longrightarrow>
                  MatchAt g' (c + fst (col_rg g), r) = Inr (Reset m))))"
proof -
  let ?idx = "\<lambda>r c. r * score_cols g + fst (col_rg g) + c"
  from Filter_rows [OF assms(4,5,6), of Reset scan] obtain ms' n where
    loop: "for_each (Filter_body Reset scan) (map int [0 ..< nat (score_rows g)]) (g, 0)
              = Inr (g\<lparr>matches := ms'\<rparr>, n)"
    and len: "length ms' = length (matches g)"
    and nth: "\<forall>r c. 0 \<le> r \<and> r < score_rows g \<and> 0 \<le> c \<and> c < Range_size (col_rg g) \<longrightarrow>
           ms' ! nat (?idx r c) = filtered Reset g scan c r (matches g ! nat (?idx r c))"
    by blast
  have F: "Filter Reset g scan gsize = Inr (g\<lparr>matches := ms'\<rparr>, n)"
    using assms(1,2,3) loop by (simp add: Filter_def Range_div_def upto_int_def)
  have "\<exists>m. MatchAt g (c + fst (col_rg g), r) = Inr m
             \<and> MatchAt (g\<lparr>matches := ms'\<rparr>) (c + fst (col_rg g), r) =
                 Inr (if cell_good_spec g c r then mark_good g scan c r m else Reset m)
             \<and> (nms g \<and> (c = 0 \<or> c = Range_size (col_rg g) - 1) \<longrightarrow>
                  MatchAt (g\<lparr>matches := ms'\<rparr>) (c + fst (col_rg g), r) = Inr (Reset m))"
    if act: "0 \<le> r \<and> r < score_rows g \<and> 0 \<le> c \<and> c < Range_size (col_rg g)" for r c
  proof -
    from act assms(4,5) have "0 \<le> fst (col_rg g) + c" "fst (col_rg g) + c < score_cols g"
      by (auto simp: Range_size_def)
    from cell_index_in_range [OF _ _ this, of r "score_rows g"] act assms(6)
    have inr: "0 \<le> ?idx r c" "?idx r c < int (length (matches g))"
      by (simp_all add: add.assoc)
    have ix: "Px2Ind g (c + fst (col_rg g), r) = ?idx r c"
      "Px2Ind (g\<lparr>matches := ms'\<rparr>) (c + fst (col_rg g), r) = ?idx r c"
      by (simp_all add: Px2Ind_def)
    have skip: "\<not> cell_good_spec g c r" if "nms g" "c = 0 \<or> c = Range_size (col_rg g) - 1"
      using that by (auto simp: cell_good_spec_def Let_def)
    from nth [rule_format, OF act] inr len skip show ?thesis
      by (auto simp: MatchAt_def ix filtered_def Let_def)
  qed
  with F show ?thesis by blast
qed

theorem Filter_marks_good_cells_witness:
  "\<exists>g' n. Filter ex_Reset ex_nms_grid (ex_scan (0, 7)) 0 = Inr (g', n)
     \<and> map_sum id px_g (MatchAt g' (0, 0)) = Inr (- 100, - 100)
     \<and> map_sum id px_g (MatchAt g' (1, 0)) = Inr (- 100, - 100)
     \<and> map_sum id px_g (MatchAt g' (2, 0)) = Inr (2, 0)
     \<and> map_sum id px_g (MatchAt g' (3, 0)) = Inr (- 100, - 100)
     \<and> map_sum id px_g (MatchAt g' (4, 0)) = Inr (4, 0)
     \<and> map_sum id px_g (MatchAt g' (5, 0)) = Inr (- 100, - 100)
     \<and> map_sum id px_g (MatchAt g' (6, 0)) = Inr (- 100, - 100)"
proof -
  have h: "fst (cell_size ex_nms_grid) \<noteq> 0"
    "cdiv (fst (scan_col_rg (ex_scan (0, 7)))) (fst (cell_size ex_nms_grid))
       = fst (col_rg ex_nms_grid)"
    "cdiv (snd (scan_col_rg (ex_scan (0, 7)))) (fst (cell_size ex_nms_grid))
       = snd (col_rg ex_nms_grid)"
    "0 \<le> fst (col_rg ex_nms_grid)" "snd (col_rg ex_nms_grid) \<le> score_cols ex_nms_grid"
    "int (length (matches ex_nms_grid)) = score_rows ex_nms_grid * score_cols ex_nms_grid"
    by (simp_all add: ex_nms_grid_def ex_scan_def cdiv_def)
  from Filter_marks_good_cells [OF h, of ex_Reset 0]
  obtain g' n where F: "Filter ex_Reset ex_nms_grid (ex_scan (0, 7)) 0 = Inr (g', n)"
    and cells: "\<forall>r c. 0 \<le> r \<and> r < score_rows ex_nms_grid \<and> 0 \<le> c
            \<and> c < Range_size (col_rg ex_nms_grid) \<longrightarrow>
          (\<exists>m. MatchAt ex_nms_grid (c + fst (col_rg ex_nms_grid), r) = Inr m
             \<and> MatchAt g' (c + fst (col_rg ex_nms_grid), r) =
                 Inr (if cell_good_spec ex_nms_grid c r
                      then mark_good ex_nms_grid (ex_scan (0, 7)) c r m else ex_Reset m)
             \<and> (nms ex_nms_grid \<and> (c = 0 \<or> c = Range_size (col_rg ex_nms_grid) - 1) \<longrightarrow>
                  MatchAt g' (c + fst (col_rg ex_nms_grid), r) = Inr (ex_Reset m)))"
    by blast
  have rg: "score_rows ex_nms_grid = 1" "col_rg ex_nms_grid = (0, 7)"
    by (simp_all add: ex_nms_grid_def)
  have cell: "map_sum id px_g (MatchAt g' (c, 0)) =
      Inr (if cell_good_spec ex_nms_grid c 0 then (c, 0) else (- 100, - 100))"
    if "0 \<le> c" "c < 7" for c
    using cells [rule_format, of 0 c] that
    by (auto simp: rg Range_size_def mark_good_def ex_Reset_def)
  have good: "\<not> cell_good_spec ex_nms_grid 0 0" "\<not> cell_good_spec ex_nms_grid 1 0"
    "cell_good_spec ex_nms_grid 2 0" "\<not> cell_good_spec ex_nms_grid 3 0"
    "cell_good_spec ex_nms_grid 4 0" "\<not> cell_good_spec ex_nms_grid 5 0"
    "\<not> cell_good_spec ex_nms_grid 6 0"
    by (simp_all add: cell_good_spec_def ex_nms_grid_def ScoreAt_def Range_size_def
        fp_le_def nan_as_inf_def)
  from F cell [of 0] cell [of 1] cell [of 2] cell [of 3] cell [of 4] cell [of 5] cell [of 6] good
  show ?thesis by simp
qed

section \<open>Properties of the cost functor\<close>

text \<open>
  C9. A cost functor constructed with the grain size 0 ("all at once") and then given
  the four matches of \<open>ex_grid\<close> holds four matches and the grain size 0: the
  constructor reads the size of the vector of matches while it is still empty, and
  \<open>UpdateMatches\<close> does not set the grain size again.
\<close>

theorem gsize_zero_after_UpdateMatches:
  "map_sum id (\<lambda>c. (length (cmatches c), gsize_member c))
     (UpdateMatches (\<lambda>m. True) (GicpCost_ctor p w e 0) ex_grid) = Inr (4, 0)"
  by (simp add: UpdateMatches_def UpdateMatches_row_def UpdateMatches_cell_def
      GicpCost_ctor_def ex_grid_def upto_int_def MatchAt_def Px2Ind_def upt_rec)

section \<open>Properties of the trajectory and the preintegration\<close>

lemma FindNextImu_from_none:
  "(\<forall>d\<in>set b. time d \<le> t) \<Longrightarrow> FindNextImu_from b t i = - 1"
  by (induction b arbitrary: i) auto

lemma FindNextImu_none: "(\<forall>d\<in>set b. time d \<le> t) \<Longrightarrow> FindNextImu b t = - 1"
  by (simp add: FindNextImu_def FindNextImu_from_none)

text \<open>
  C2, as stated, fails on \<open>Predict\<close> of \<open>src/sv/llol/imu.cpp\<close>: on an empty buffer the
  call does not return 0, it fails the check \<open>CHECK_GE(ibuf, 0)\<close> that replaced the
  early return.
\<close>

theorem Predict_empty_buffer_aborts:
  "Predict (ex_traj []) 0 (1 / 10) = Inl (CheckFailed ''CHECK_GE(ibuf, 0)'')"
  by (simp add: Predict_def ex_traj_def FindNextImu_def)

text \<open>
  C2, amended. When no sample of the buffer has a time stamp greater than \<open>t0\<close>, the
  \<open>Predict\<close> of \<open>src/unnamed/part_000\<close> returns 0 and leaves the trajectory as it was,
  and the \<open>Predict\<close> of \<open>src/sv/llol/imu.cpp\<close> fails the check \<open>CHECK_GE(ibuf, 0)\<close>.
\<close>

theorem Predict_without_newer_imu:
  assumes "\<forall>d\<in>set (traj_buf tr0). time d \<le> t0"
    and "\<forall>d\<in>set (buf tr). time d \<le> t0"
  shows "Predict0 tr0 t0 dt = Inr (tr0, 0)
       \<and> Predict tr t0 dt = Inl (CheckFailed ''CHECK_GE(ibuf, 0)'')"
  using FindNextImu_none [OF assms(1)] FindNextImu_none [OF assms(2)]
  by (simp add: Predict0_def Predict_def)

theorem Predict_without_newer_imu_witness:
  "Predict0 (ex_traj0 [ex_imu 0]) 0 (1 / 10) = Inr (ex_traj0 [ex_imu 0], 0)
   \<and> Predict (ex_traj [ex_imu 0]) 0 (1 / 10) = Inl (CheckFailed ''CHECK_GE(ibuf, 0)'')"
  using Predict_without_newer_imu [of "ex_traj0 [ex_imu 0]" 0 "ex_traj [ex_imu 0]" "1 / 10"]
  by (simp add: ex_traj_def ex_traj0_def ex_imu_def)

text \<open>
  C3, as stated, fails: on an empty queue \<open>Compute\<close> does not come back to its caller
  with an error to recover from. The check \<open>CHECK_LE(0, ibuf0)\<close> fails and the process
  stops.
\<close>

theorem Compute_empty_queue_aborts:
  "Compute id (ex_traj []) (Reset_preint ex_preint) = Inl (CheckFailed ''CHECK_LE(0, ibuf0)'')"
  by (simp add: Compute_def ex_traj_def ex_state_def FindNextImu_def)

text \<open>
  C3, amended. When the trajectory has a state and no sample of the queue is newer than
  the time \<open>t0\<close> of its first state (the empty queue included), \<open>Compute\<close> of
  \<open>src/sv/llol/imu.cpp\<close> fails a check: \<open>CHECK_LE(0, ibuf0)\<close> when \<open>t0 < t1\<close>, and
  \<open>CHECK_LT(t0, t1)\<close> before that otherwise. It returns nothing to its caller.
\<close>

theorem Compute_aborts_without_newer_imu:
  assumes "states tr \<noteq> []"
    and "\<forall>d\<in>set (buf tr). time d \<le> state_time (hd (states tr))"
  shows "Compute S tr p =
           Inl (CheckFailed (if state_time (hd (states tr)) < state_time (last (states tr))
                             then ''CHECK_LE(0, ibuf0)'' else ''CHECK_LT(t0, t1)''))"
proof -
  from assms(1) obtain s0 rest where st: "states tr = s0 # rest" by (cases "states tr") auto
  have nf: "FindNextImu (buf tr) (state_time (hd (states tr))) = - 1"
    using assms(2) by (rule FindNextImu_none)
  then show ?thesis
    by (simp add: Compute_def st Let_def del: last.simps)
qed

theorem Compute_aborts_witness:
  "Compute id (ex_traj []) ex_preint = Inl (CheckFailed ''CHECK_LE(0, ibuf0)'')
   \<and> Compute id (ex_traj [ex_imu 0]) (Reset_preint ex_preint)
       = Inl (CheckFailed ''CHECK_LE(0, ibuf0)'')"
  using Compute_aborts_without_newer_imu [of "ex_traj []" id ex_preint]
    Compute_aborts_without_newer_imu [of "ex_traj [ex_imu 0]" id "Reset_preint ex_preint"]
  by (simp add: ex_traj_def ex_state_def ex_imu_def)

text \<open>Roundings at the doubles of the examples.\<close>

lemma fl64_d02: "fl64 d02 = d02"
  using fl64_eval [of "- 55" d02]
  by (simp add: d02_def powr_minus round_even_def field_simps)

lemma fl64_d09: "fl64 d09 = d09"
  using fl64_eval [of "- 53" d09]
  by (simp add: d09_def powr_minus round_even_def field_simps)

lemma fl64_d09_d02: "fl64 (d09 - d02) = d07"
  using fl64_eval [of "- 53" "d09 - d02"]
  by (simp add: d09_def d02_def d07_def powr_minus round_even_def field_simps)

lemma fl64_d02_d07: "fl64 (d02 + d07) = d09_below"
  using fl64_eval [of "- 53" "d02 + d07"]
  by (simp add: d02_def d07_def d09_below_def powr_minus round_even_def field_simps)

lemma fl64_half: "fl64 (1 / 2) = 1 / 2"
  using fl64_eval [of "- 53" "1 / 2"]
  by (simp add: powr_minus round_even_def field_simps)

lemma d_pos: "0 < d02" "0 < d07" "0 < d09" "d09_below < d09"
  by (simp_all add: d02_def d07_def d09_def d09_below_def)

text \<open>
  C7. A step \<open>Integrate(dt, imu, noise)\<close> with \<open>dt > 0\<close> returns, and with \<open>a\<close> and \<open>w\<close>
  the acceleration and angular rate of the sample: \<open>alpha\<close> grows by
  \<open>beta * dt + 0.5 * gamma * a * dt^2\<close>, \<open>beta\<close> by \<open>gamma * a * dt\<close>, \<open>gamma\<close> is
  multiplied on the right by \<open>exp(w * dt)\<close> (each from the values before the step),
  the duration grows by \<open>dt\<close> (the sum of two doubles, rounded), the count by 1,
  and the covariance becomes
  \<open>F * P * F^T * dt^2\<close> for the updated \<open>F\<close>, with \<open>sigma2\<close> added to the diagonal
  entries 3 to 14, the last 12.
\<close>

theorem Integrate_step:
  assumes "0 < dt"
  shows "\<exists>p'. Integrate dt imu nz p = Inr p'
     \<and> alpha p' = vadd (alpha p)
          (vadd (vscale dt (beta p)) (vscale 0.5 (vscale (dt * dt) (mat_vec (gamma p) (acc imu)))))
     \<and> beta p' = vadd (beta p) (vscale dt (mat_vec (gamma p) (acc imu)))
     \<and> gamma p' = mat_mul (gamma p) (SO3_exp (vscale dt (gyr imu)))
     \<and> duration p' = double_add (duration p) dt
     \<and> pre_n p' = pre_n p + 1
     \<and> (\<forall>i j. pre_P p' i j =
            (\<Sum>k<15. (\<Sum>l<15. pre_F p' i l * pre_P p l k) * pre_F p' j k) * (dt * dt)
            + (if i = j \<and> 3 \<le> i \<and> i < 15 then sigma2 nz (i - 3) else 0))"
  using assms
  by (simp add: Integrate_def Let_def mat15_mul_def matX_scale_def matX_transpose_def kDim_def)

theorem Integrate_step_witness:
  "\<exists>p'. Integrate (1 / 2) (ex_imu 1) \<lparr>sigma2 = (\<lambda>i. 1)\<rparr> ex_preint = Inr p'
     \<and> alpha p' = V3 0 0 (1 / 8) \<and> beta p' = V3 0 0 (1 / 2) \<and> gamma p' = kIdent3
     \<and> duration p' = 1 / 2 \<and> pre_n p' = 1 \<and> pre_P p' 3 3 = 1 \<and> pre_P p' 0 0 = 0"
proof -
  from Integrate_step [of "1 / 2" "ex_imu 1" "\<lparr>sigma2 = (\<lambda>i. 1)\<rparr>" ex_preint]
  obtain p' where h: "Integrate (1 / 2) (ex_imu 1) \<lparr>sigma2 = (\<lambda>i. 1)\<rparr> ex_preint = Inr p'"
     "alpha p' = vadd (alpha ex_preint)
          (vadd (vscale (1 / 2) (beta ex_preint))
             (vscale 0.5 (vscale ((1 / 2) * (1 / 2)) (mat_vec (gamma ex_preint) (acc (ex_imu 1))))))"
     "beta p' = vadd (beta ex_preint) (vscale (1 / 2) (mat_vec (gamma ex_preint) (acc (ex_imu 1))))"
     "gamma p' = mat_mul (gamma ex_preint) (SO3_exp (vscale (1 / 2) (gyr (ex_imu 1))))"
     "duration p' = double_add (duration ex_preint) (1 / 2)"
     "pre_n p' = pre_n ex_preint + 1"
     "\<forall>i j. pre_P p' i j =
            (\<Sum>k<15. (\<Sum>l<15. pre_F p' i l * pre_P ex_preint l k) * pre_F p' j k)
              * ((1 / 2) * (1 / 2))
            + (if i = j \<and> 3 \<le> i \<and> i < 15 then sigma2 \<lparr>sigma2 = (\<lambda>i. 1)\<rparr> (i - 3) else 0)"
    by auto
  have "pre_P p' 3 3 = 1" "pre_P p' 0 0 = 0"
    using h(7) by (simp_all add: ex_preint_def matX_zero_def)
  moreover have "alpha p' = V3 0 0 (1 / 8)" "beta p' = V3 0 0 (1 / 2)" "gamma p' = kIdent3"
    "duration p' = 1 / 2" "pre_n p' = 1"
    using h(2-6)
    by (simp_all add: ex_preint_def ex_imu_def zero3_def kIdent3_def SO3_exp_def Let_def
        double_add_def fl64_half)
  ultimately show ?thesis using h(1) by blast
qed

text \<open>
  One step of \<open>Integrate\<close> over the rounded difference of two doubles keeps the duration
  within its bounds: the difference and the sum are rounded once each, and every term
  is positive.
\<close>

lemma time_DeBiased: "time (DeBiased d b) = time d"
  by (simp add: DeBiased_def)

lemma Integrate_duration:
  "Integrate dt imu nz p = Inr p' \<Longrightarrow>
     duration p' = double_add (duration p) dt \<and> 0 < dt \<and> pre_n p' = pre_n p + 1"
  by (auto simp: Integrate_def Let_def split: if_splits)

lemma acc_upper:
  fixes a :: real
  assumes "1 \<le> a" "0 \<le> S" "0 \<le> D" "d \<le> a ^ j * S" "dl \<le> a * D" "d' \<le> a * (d + dl)"
  shows "d' \<le> a ^ Suc (Suc j) * (S + D)"
proof -
  have a0: "0 \<le> a" using assms(1) by simp
  have "d + dl \<le> a ^ j * S + a * D" using assms(4,5) by simp
  then have "a * (d + dl) \<le> a * (a ^ j * S + a * D)" using a0 by (rule mult_left_mono)
  also have "\<dots> = a ^ Suc j * S + a ^ 2 * D" by (simp add: algebra_simps power2_eq_square)
  also have "\<dots> \<le> a ^ Suc (Suc j) * S + a ^ Suc (Suc j) * D"
  proof (rule add_mono)
    have "a ^ Suc j \<le> a ^ Suc (Suc j)" using assms(1) by (intro power_increasing) auto
    then show "a ^ Suc j * S \<le> a ^ Suc (Suc j) * S" using assms(2) by (rule mult_right_mono)
    have "a ^ 2 \<le> a ^ Suc (Suc j)" using assms(1) by (intro power_increasing) auto
    then show "a ^ 2 * D \<le> a ^ Suc (Suc j) * D" using assms(3) by (rule mult_right_mono)
  qed
  also have "\<dots> = a ^ Suc (Suc j) * (S + D)" by (simp add: algebra_simps)
  finally show ?thesis using assms(6) by linarith
qed

lemma acc_lower:
  fixes b :: real
  assumes "0 \<le> b" "b \<le> 1" "0 \<le> S" "0 \<le> D" "b ^ j * S \<le> d" "b * D \<le> dl"
    "b * (d + dl) \<le> d'"
  shows "b ^ Suc (Suc j) * (S + D) \<le> d'"
proof -
  have "b ^ Suc (Suc j) * (S + D) = b ^ Suc (Suc j) * S + b ^ Suc (Suc j) * D"
    by (simp add: algebra_simps)
  also have "\<dots> \<le> b ^ Suc j * S + b ^ 2 * D"
  proof (rule add_mono)
    have "b ^ Suc (Suc j) \<le> b ^ Suc j" using assms(1,2) by (intro power_decreasing) auto
    then show "b ^ Suc (Suc j) * S \<le> b ^ Suc j * S" using assms(3) by (rule mult_right_mono)
    have "b ^ Suc (Suc j) \<le> b ^ 2" using assms(1,2) by (intro power_decreasing) auto
    then show "b ^ Suc (Suc j) * D \<le> b ^ 2 * D" using assms(4) by (rule mult_right_mono)
  qed
  also have "\<dots> = b * (b ^ j * S + b * D)" by (simp add: algebra_simps power2_eq_square)
  also have "\<dots> \<le> b * (d + dl)"
    using assms(1,5,6) by (intro mult_left_mono) auto
  finally show ?thesis using assms(7) by linarith
qed

lemma eps64_range: "0 < eps64" "eps64 < 1"
  by (simp_all add: eps64_def)

lemma Integrate_dur_inv:
  assumes I: "Integrate (double_sub t' t) imu nz p = Inr q"
    and inv: "dur_inv p S" and g: "on_grid t'" "on_grid t"
  shows "dur_inv q (S + (t' - t))"
proof -
  let ?D = "t' - t"
  let ?j = "2 * nat (pre_n p)"
  from Integrate_duration [OF I] have q: "duration q = fl64 (duration p + fl64 ?D)"
    and pos: "0 < fl64 ?D" and n: "pre_n q = pre_n p + 1"
    by (simp_all add: double_add_def double_sub_def)
  from inv have n0: "0 \<le> pre_n p" and S0: "0 \<le> S" and gd: "on_grid (duration p)"
    and lo: "(1 - eps64) ^ ?j * S \<le> duration p"
    and up: "duration p \<le> (1 + eps64) ^ ?j * S"
    by (simp_all add: dur_inv_def)
  have gD: "on_grid ?D" using g by (rule on_grid_diff)
  from fl64_pos_imp [OF gD pos] have D0: "0 < ?D" .
  have d0: "0 \<le> duration p"
  proof -
    have "0 \<le> (1 - eps64) ^ ?j * S" using S0 eps64_range by simp
    with lo show ?thesis by linarith
  qed
  have dl: "(1 - eps64) * ?D \<le> fl64 ?D" "fl64 ?D \<le> (1 + eps64) * ?D"
    using fl64_bounds [OF gD] D0 by simp_all
  have gs: "on_grid (duration p + fl64 ?D)" using gd on_grid_fl64 by (rule on_grid_add)
  have s0: "0 \<le> duration p + fl64 ?D" using d0 pos by simp
  have d': "(1 - eps64) * (duration p + fl64 ?D) \<le> duration q"
    "duration q \<le> (1 + eps64) * (duration p + fl64 ?D)"
    using fl64_bounds [OF gs s0] q by simp_all
  have j: "2 * nat (pre_n q) = Suc (Suc ?j)" using n n0 by (simp add: nat_add_distrib)
  have U: "duration q \<le> (1 + eps64) ^ Suc (Suc ?j) * (S + ?D)"
    using eps64_range S0 D0 up dl(2) d'(2) by (intro acc_upper) auto
  have L: "(1 - eps64) ^ Suc (Suc ?j) * (S + ?D) \<le> duration q"
    using eps64_range S0 D0 lo dl(1) d'(1) by (intro acc_lower) auto
  have "on_grid (duration q)" unfolding q by (rule on_grid_fl64)
  with U L n n0 S0 D0 show ?thesis unfolding dur_inv_def j by simp
qed


lemma ImuAt_mem: "ImuAt b i = Inr d \<Longrightarrow> d \<in> set b"
  by (auto simp: ImuAt_def split: if_splits)

lemma Compute_loop_dur_inv:
  assumes "Compute_loop tr t1 (p, t, ibuf) = Inr (p', k)"
    and "dur_inv p S" and "on_grid t"
    and "\<forall>d\<in>set (buf tr). is_double (time d)"
  shows "\<exists>d. ImuAt (buf tr) k = Inr d \<and> dur_inv p' (S + (time d - t))"
  using assms
proof (induction tr t1 "(p, t, ibuf)" arbitrary: p t ibuf S rule: Compute_loop.induct)
  case (1 tr t1 p t ibuf)
  note dbl = "1.prems"(4)
  from "1.prems"(1) obtain d where d: "ImuAt (buf tr) ibuf = Inr d"
    by (subst (asm) Compute_loop.simps) (auto split: sum.splits)
  from "1.prems"(1) d obtain q where
    q: "Integrate (double_sub (time (DeBiased d (bias tr))) t) (DeBiased d (bias tr))
          (noise tr) p = Inr q"
    by (subst (asm) Compute_loop.simps) (auto split: sum.splits)
  have gd: "on_grid (time d)" using dbl ImuAt_mem [OF d] is_double_on_grid by blast
  have iq: "dur_inv q (S + (time d - t))"
    using Integrate_dur_inv [OF q [unfolded time_DeBiased] "1.prems"(2) gd "1.prems"(3)] .
  show ?case
  proof (cases "ibuf + 1 = int (length (buf tr))")
    case True
    with "1.prems"(1) d q have "p' = q" "k = ibuf"
      by (subst (asm) Compute_loop.simps, simp)+
    with d iq show ?thesis by simp
  next
    case False
    with "1.prems"(1) d q obtain nx where nx: "ImuAt (buf tr) (ibuf + 1) = Inr nx"
      by (subst (asm) Compute_loop.simps) (auto split: sum.splits)
    show ?thesis
    proof (cases "time nx \<ge> t1")
      case True
      with "1.prems"(1) d q False nx have "p' = q" "k = ibuf"
        by (subst (asm) Compute_loop.simps, simp)+
      with d iq show ?thesis by simp
    next
      case ge: False
      with "1.prems"(1) d q False nx
      have rec: "Compute_loop tr t1 (q, time (DeBiased d (bias tr)), ibuf + 1) = Inr (p', k)"
        by (subst (asm) Compute_loop.simps) simp
      have gt: "on_grid (time (DeBiased d (bias tr)))" using gd by (simp add: time_DeBiased)
      from "1.hyps" [OF d q False nx ge rec iq gt dbl]
      obtain d' where "ImuAt (buf tr) k = Inr d'"
        "dur_inv p' (S + (time d - t) + (time d' - time (DeBiased d (bias tr))))"
        by auto
      moreover have "S + (time d - t) + (time d' - time (DeBiased d (bias tr)))
          = S + (time d' - t)" by (simp add: time_DeBiased)
      ultimately show ?thesis by auto
    qed
  qed
qed

text \<open>
  C10, as stated, fails: over the window from \<open>t0 = 0\<close> to \<open>t1 = 0.9\<close> with one sample
  at \<open>0.2\<close> (the doubles nearest to these), \<open>Compute\<close> started on a reset
  preintegration returns, and the duration it has accumulated is less than \<open>t1 - t0\<close>:
  both the last step \<open>0.9 - 0.2\<close> and the sum \<open>0.2 + 0.7\<close> are ties and round down.
\<close>

theorem Compute_duration_rounds_counterexample:
  "map_sum id
     (\<lambda>(p', k). duration p'
         < state_time (last (states ex_traj_09)) - state_time (hd (states ex_traj_09)))
     (Compute id ex_traj_09 (Reset_preint ex_preint)) = Inr True"
  by (simp add: Compute_def Compute_loop.simps Integrate_def ImuAt_def FindNextImu_def
      ex_traj_09_def ex_traj_def ex_imu_def ex_state_def Let_def Reset_preint_def ex_preint_def
      DeBiased_def double_sub_def double_add_def fl64_d02 fl64_d09_d02 fl64_d02_d07 d_pos)

text \<open>
  C10, amended. Whenever \<open>Compute\<close>, started on a preintegration that was reset, returns
  over time stamps that are doubles, the duration it has accumulated is the length
  \<open>t1 - t0\<close> of the window up to rounding: with \<open>n\<close> the number of steps it returns,
  the duration lies between \<open>(1 - 2^-53)^(2n) * (t1 - t0)\<close> and
  \<open>(1 + 2^-53)^(2n) * (t1 - t0)\<close>. The exact step lengths telescope to \<open>t1 - t0\<close>; each
  step rounds one difference and one sum.
\<close>

theorem Compute_duration_rounded:
  assumes ret: "Compute S tr (Reset_preint p) = Inr (p', k)"
    and t0: "is_double (state_time (hd (states tr)))"
    and t1: "is_double (state_time (last (states tr)))"
    and ts: "\<forall>d\<in>set (buf tr). is_double (time d)"
  shows "k = pre_n p' \<and> 0 \<le> k
     \<and> (1 - eps64) ^ (2 * nat k) * (state_time (last (states tr)) - state_time (hd (states tr)))
           \<le> duration p'
     \<and> duration p'
           \<le> (1 + eps64) ^ (2 * nat k)
               * (state_time (last (states tr)) - state_time (hd (states tr)))"
proof -
  let ?t0 = "state_time (hd (states tr))"
  let ?t1 = "state_time (last (states tr))"
  from ret obtain p1 ibuf where
    loop: "Compute_loop tr ?t1 (Reset_preint p, ?t0, FindNextImu (buf tr) ?t0) = Inr (p1, ibuf)"
    by (auto simp: Compute_def Let_def split: list.splits if_splits sum.splits)
  have i0: "dur_inv (Reset_preint p) 0"
    by (simp add: dur_inv_def Reset_preint_def on_grid_zero)
  from Compute_loop_dur_inv [OF loop i0 is_double_on_grid [OF t0] ts] obtain d where
    d: "ImuAt (buf tr) ibuf = Inr d" and i1: "dur_inv p1 (time d - ?t0)"
    by auto
  from ret loop d obtain p2 where
    fin: "Integrate (double_sub ?t1 (time d)) (DeBiased d (bias tr)) (noise tr) p1 = Inr p2"
    and p': "p' = p2\<lparr>pre_U := S (pre_P p2)\<rparr>" and k: "k = pre_n p2"
    by (auto simp: Compute_def Let_def time_DeBiased split: list.splits if_splits sum.splits)
  have gd: "on_grid (time d)" using ts ImuAt_mem [OF d] is_double_on_grid by blast
  from Integrate_dur_inv [OF fin i1 is_double_on_grid [OF t1] gd]
  have "dur_inv p2 (?t1 - ?t0)" by simp
  with p' k show ?thesis by (simp add: dur_inv_def)
qed

theorem Compute_duration_rounded_witness:
  "\<exists>p'. Compute id ex_traj_09 (Reset_preint ex_preint) = Inr (p', 2)
     \<and> duration p' = d09_below
     \<and> (1 - eps64) ^ 4 * d09 \<le> duration p' \<and> duration p' \<le> (1 + eps64) ^ 4 * d09"
proof -
  have "\<exists>p'. Compute id ex_traj_09 (Reset_preint ex_preint) = Inr (p', 2)
          \<and> duration p' = d09_below"
    by (simp add: Compute_def Compute_loop.simps Integrate_def ImuAt_def FindNextImu_def
      ex_traj_09_def ex_traj_def ex_imu_def ex_state_def Let_def Reset_preint_def ex_preint_def
      DeBiased_def double_sub_def double_add_def fl64_d02 fl64_d09_d02 fl64_d02_d07 d_pos)
  then obtain p' where h: "Compute id ex_traj_09 (Reset_preint ex_preint) = Inr (p', 2)"
    and v: "duration p' = d09_below" by blast
  have dbl: "is_double (state_time (hd (states ex_traj_09)))"
    "is_double (state_time (last (states ex_traj_09)))"
    "\<forall>d\<in>set (buf ex_traj_09). is_double (time d)"
    by (simp_all add: ex_traj_09_def ex_traj_def ex_state_def ex_imu_def is_double_def
        fl64_zero fl64_d09 fl64_d02)
  from Compute_duration_rounded [OF h dbl]
  have "(1 - eps64) ^ 4 * d09 \<le> duration p' \<and> duration p' \<le> (1 + eps64) ^ 4 * d09"
    by (simp add: ex_traj_09_def ex_state_def)
  with h v show ?thesis by blast
qed

text \<open>
  C8. On a trajectory with at least one state, \<open>GicpRigidCost::UpdateTraj\<close> returns a
  trajectory of the same length in which the state 0 has \<open>rot = eR * rot\<close>,
  \<open>pos = eR * pos + p0\<close> and, for a duration other than zero, \<open>vel = vel + p0 / duration\<close>,
  with its time unchanged, and in which every state of index 1 or more is the state it
  was. \<open>eR\<close> is \<open>exp(r0)\<close>, and \<open>(r0, p0)\<close> the accumulated correction \<open>error\<close>.
\<close>

theorem UpdateTraj_rigid_frame:
  assumes "states tr \<noteq> []"
  shows "\<exists>tr'. GicpRigidCost_UpdateTraj c tr = Inr tr'
     \<and> length (states tr') = length (states tr)
     \<and> rot (states tr' ! 0) = mat_mul (SO3_exp (State_r0 (error c))) (rot (states tr ! 0))
     \<and> pos (states tr' ! 0) =
         vadd (mat_vec (SO3_exp (State_r0 (error c))) (pos (states tr ! 0))) (State_p0 (error c))
     \<and> (traj_duration tr \<noteq> 0 \<longrightarrow>
          vel (states tr' ! 0) =
            vadd (vel (states tr ! 0)) (vdiv (State_p0 (error c)) (traj_duration tr)))
     \<and> state_time (states tr' ! 0) = state_time (states tr ! 0)
     \<and> (\<forall>i. 1 \<le> i \<and> i < length (states tr) \<longrightarrow> states tr' ! i = states tr ! i)"
proof -
  from assms obtain st rest where st: "states tr = st # rest" by (cases "states tr") auto
  have "\<And>i. 1 \<le> i \<Longrightarrow> (x # rest) ! i = (st # rest) ! i" for x
    by (case_tac i) auto
  then show ?thesis
    by (simp add: GicpRigidCost_UpdateTraj_def st Let_def)
qed

theorem UpdateTraj_rigid_witness:
  "\<exists>tr'. GicpRigidCost_UpdateTraj (ex_cost\<lparr>error := (\<lambda>k. if k = 3 then 1 else 0)\<rparr>)
            ((ex_traj [])\<lparr>states := [ex_state 0, ex_state 2]\<rparr>) = Inr tr'
     \<and> rot (states tr' ! 0) = kIdent3 \<and> pos (states tr' ! 0) = V3 1 0 0
     \<and> vel (states tr' ! 0) = V3 (1 / 2) 0 0 \<and> states tr' ! 1 = ex_state 2"
proof -
  let ?c = "ex_cost\<lparr>error := (\<lambda>k. if k = 3 then 1 else 0)\<rparr>"
  let ?tr = "(ex_traj [])\<lparr>states := [ex_state 0, ex_state 2]\<rparr>"
  have r0: "State_r0 (error ?c) = V3 0 0 0" and p0: "State_p0 (error ?c) = V3 1 0 0"
    by (simp_all add: State_r0_def State_p0_def segment3_def kR0_def kP0_def)
  have du: "traj_duration ?tr = 2"
    by (simp add: traj_duration_def ex_state_def)
  from UpdateTraj_rigid_frame [of ?tr ?c] obtain tr' where
    h: "GicpRigidCost_UpdateTraj ?c ?tr = Inr tr'"
      "rot (states tr' ! 0) = mat_mul (SO3_exp (State_r0 (error ?c))) (rot (states ?tr ! 0))"
      "pos (states tr' ! 0) =
         vadd (mat_vec (SO3_exp (State_r0 (error ?c))) (pos (states ?tr ! 0))) (State_p0 (error ?c))"
      "traj_duration ?tr \<noteq> 0 \<longrightarrow>
          vel (states tr' ! 0) =
            vadd (vel (states ?tr ! 0)) (vdiv (State_p0 (error ?c)) (traj_duration ?tr))"
      "\<forall>i. 1 \<le> i \<and> i < length (states ?tr) \<longrightarrow> states tr' ! i = states ?tr ! i"
    by auto
  have "rot (states tr' ! 0) = kIdent3" "pos (states tr' ! 0) = V3 1 0 0"
    "vel (states tr' ! 0) = V3 (1 / 2) 0 0"
    using h(2,3,4) unfolding r0 p0 du
    by (simp_all add: SO3_exp_zero ex_state_def kIdent3_def zero3_def)
  moreover have "states tr' ! 1 = ex_state 2" using h(5) by simp
  ultimately show ?thesis using h(1) by blast
qed

section \<open>Properties of the residuals and the Jacobian\<close>

lemma Rigid_body_identity:
  assumes "i < length (cmatches c)" "pgrid c = Some g"
    and "\<forall>m\<in>set (cmatches c). mean (mc_p m) = SE3_act (TfAt g (fst (px_g m))) (mean (mc_g m))"
  shows "\<exists>r' J'. Rigid_match_body TfAt c \<lparr>so3 = kIdent3, translation = zero3\<rparr> (int i) (r, J)
            = Inr (r', J')
          \<and> (\<forall>j. r' j = (if 3 * i \<le> j \<and> j < 3 * i + 3 then 0 else r j))"
proof -
  have m: "cmatches c ! i \<in> set (cmatches c)" using assms(1) by simp
  show ?thesis
    using assms(1,2) assms(3) [rule_format, OF m]
    by (simp add: Rigid_match_body_def Let_def SE3_act_def mat_vec_ident vadd_zero vsub_self
        mat_vec_zero set_segment3_zero kResidualDim_def)
qed

lemma Linear_body_identity:
  assumes "i < length (cmatches c)" "pgrid c = Some g"
    and "\<forall>m\<in>set (cmatches c). mean (mc_p m) = SE3_act (TfAt g (fst (px_g m))) (mean (mc_g m))"
  shows "\<exists>r' J'. Linear_match_body TfAt c kIdent3 zero3 (int i) (r, J) = Inr (r', J')
          \<and> (\<forall>j. r' j = (if 3 * i \<le> j \<and> j < 3 * i + 3 then 0 else r j))"
proof -
  have m: "cmatches c ! i \<in> set (cmatches c)" using assms(1) by simp
  show ?thesis
    using assms(1,2) assms(3) [rule_format, OF m]
    by (simp add: Linear_match_body_def Let_def mat_vec_ident vadd_zero vsub_self
        mat_vec_zero vscale_zero set_segment3_zero kResidualDim_def)
qed

text \<open>
  C6. With the parameter vector zero, no trajectory attached, and every match having
  its pano-frame mean equal to the grid pose of its column applied to its sweep-frame
  mean, both \<open>GicpRigidCost::operator()\<close> and \<open>GicpLinearCost::operator()\<close> return true,
  every residual entry they write (the entries below \<open>3 * number of matches\<close>) is zero,
  and the other entries are left as they were. The numbers are real: on doubles the
  same needs every \<open>U\<close> finite and, for the linear cost, a grid with a column.
\<close>

theorem residuals_zero_at_identity:
  assumes xi: "\<forall>k<6. x k = 0"
    and nt: "ptraj c = None"
    and gr: "pgrid c = Some g"
    and mt: "\<forall>m\<in>set (cmatches c). mean (mc_p m) = SE3_act (TfAt g (fst (px_g m))) (mean (mc_g m))"
  shows "(\<exists>r' J'. GicpRigidCost_call TfAt Log c x r J = Inr (True, r', J')
            \<and> (\<forall>j. r' j = (if j < 3 * length (cmatches c) then 0 else r j)))
       \<and> (\<exists>r' J'. GicpLinearCost_call TfAt c x r J = Inr (True, r', J')
            \<and> (\<forall>j. r' j = (if j < 3 * length (cmatches c) then 0 else r j)))"
proof -
  let ?P = "\<lambda>i (s :: vecX \<times> matX option). \<forall>j. fst s j = (if j < 3 * i then 0 else r j)"
  have r0: "State_r0 x = V3 0 0 0" and p0: "State_p0 x = zero3"
    using xi by (simp_all add: State_r0_def State_p0_def segment3_def kR0_def kP0_def zero3_def)
  have rigid: "\<exists>s'. for_each (Rigid_match_body TfAt c \<lparr>so3 = kIdent3, translation = zero3\<rparr>)
                   (map int [0 ..< length (cmatches c)]) (r, J) = Inr s'
                 \<and> ?P (length (cmatches c)) s'"
  proof (rule for_each_upt_total)
    show "?P 0 (r, J)" by simp
  next
    fix i and s :: "vecX \<times> matX option"
    assume i: "i < length (cmatches c)" and P: "?P i s"
    from Rigid_body_identity [where TfAt = TfAt and r = "fst s" and J = "snd s", OF i gr(1) mt]
    obtain r' J' where b: "Rigid_match_body TfAt c \<lparr>so3 = kIdent3, translation = zero3\<rparr> (int i) s
        = Inr (r', J')"
      and r': "\<forall>j. r' j = (if 3 * i \<le> j \<and> j < 3 * i + 3 then 0 else fst s j)"
      by auto
    have "?P (Suc i) (r', J')" using r' P by auto
    with b show "\<exists>s'. Rigid_match_body TfAt c \<lparr>so3 = kIdent3, translation = zero3\<rparr> (int i) s
        = Inr s' \<and> ?P (Suc i) s'" by blast
  qed
  have linear: "\<exists>s'. for_each (Linear_match_body TfAt c kIdent3 zero3)
                   (map int [0 ..< length (cmatches c)]) (r, J) = Inr s'
                 \<and> ?P (length (cmatches c)) s'"
  proof (rule for_each_upt_total)
    show "?P 0 (r, J)" by simp
  next
    fix i and s :: "vecX \<times> matX option"
    assume i: "i < length (cmatches c)" and P: "?P i s"
    from Linear_body_identity [where TfAt = TfAt and r = "fst s" and J = "snd s", OF i gr(1) mt]
    obtain r' J' where b: "Linear_match_body TfAt c kIdent3 zero3 (int i) s = Inr (r', J')"
      and r': "\<forall>j. r' j = (if 3 * i \<le> j \<and> j < 3 * i + 3 then 0 else fst s j)"
      by auto
    have "?P (Suc i) (r', J')" using r' P by auto
    with b show "\<exists>s'. Linear_match_body TfAt c kIdent3 zero3 (int i) s = Inr s'
        \<and> ?P (Suc i) s'" by blast
  qed
  from rigid obtain r1 J1 where
    "for_each (Rigid_match_body TfAt c \<lparr>so3 = kIdent3, translation = zero3\<rparr>)
       (map int [0 ..< length (cmatches c)]) (r, J) = Inr (r1, J1)"
    "\<forall>j. r1 j = (if j < 3 * length (cmatches c) then 0 else r j)"
    by auto
  then have A: "\<exists>r' J'. GicpRigidCost_call TfAt Log c x r J = Inr (True, r', J')
            \<and> (\<forall>j. r' j = (if j < 3 * length (cmatches c) then 0 else r j))"
    by (simp add: GicpRigidCost_call_def Let_def r0 p0 SO3_exp_zero upto_int_of_nat nt)
  from linear obtain r2 J2 where
    "for_each (Linear_match_body TfAt c kIdent3 zero3)
       (map int [0 ..< length (cmatches c)]) (r, J) = Inr (r2, J2)"
    "\<forall>j. r2 j = (if j < 3 * length (cmatches c) then 0 else r j)"
    by auto
  then have B: "\<exists>r' J'. GicpLinearCost_call TfAt c x r J = Inr (True, r', J')
            \<and> (\<forall>j. r' j = (if j < 3 * length (cmatches c) then 0 else r j))"
    by (simp add: GicpLinearCost_call_def Let_def r0 p0 SO3_exp_zero upto_int_of_nat nt)
  from A B show ?thesis by blast
qed


theorem residuals_zero_witness:
  "(\<exists>r' J'. GicpRigidCost_call (\<lambda>g c. ex_tf) (\<lambda>R. zero3) ex_cost2 (\<lambda>k. 0) (\<lambda>k. 7) None
       = Inr (True, r', J') \<and> r' 0 = 0 \<and> r' 5 = 0 \<and> r' 6 = 7)
   \<and> (\<exists>r' J'. GicpLinearCost_call (\<lambda>g c. ex_tf) ex_cost2 (\<lambda>k. 0) (\<lambda>k. 7) None
       = Inr (True, r', J') \<and> r' 0 = 0 \<and> r' 5 = 0 \<and> r' 6 = 7)"
proof -
  have "(\<exists>r' J'. GicpRigidCost_call (\<lambda>g c. ex_tf) (\<lambda>R. zero3) ex_cost2 (\<lambda>k. 0) (\<lambda>k. 7) None
            = Inr (True, r', J')
            \<and> (\<forall>j. r' j = (if j < 3 * length (cmatches ex_cost2) then 0 else 7)))
       \<and> (\<exists>r' J'. GicpLinearCost_call (\<lambda>g c. ex_tf) ex_cost2 (\<lambda>k. 0) (\<lambda>k. 7) None
            = Inr (True, r', J')
            \<and> (\<forall>j. r' j = (if j < 3 * length (cmatches ex_cost2) then 0 else 7)))"
    by (rule residuals_zero_at_identity [where g = ex_grid])
       (simp_all add: ex_cost2_def ex_cost_def GicpCost_ctor_def ex_match_def ex_mc_def
          ex_tf_def SE3_act_def kIdent3_def zero3_def)
  then show ?thesis by (auto simp: ex_cost2_def)
qed

text \<open>The loop over \<open>k\<close> matches writes no row of the Jacobian from \<open>3 * k\<close> on.\<close>

lemma Rigid_match_loop_rows:
  assumes "for_each (Rigid_match_body TfAt c eT) (map int [0 ..< k]) (r, Some J) = Inr (r1, J1)"
  shows "\<exists>Jm. J1 = Some Jm \<and> (\<forall>i j. 3 * k \<le> i \<longrightarrow> Jm i j = J i j)"
proof -
  let ?P = "\<lambda>n (s :: vecX \<times> matX option).
              \<exists>Jm. snd s = Some Jm \<and> (\<forall>i j. 3 * n \<le> i \<longrightarrow> Jm i j = J i j)"
  have "?P k (r1, J1)"
  proof (rule for_each_upt_invariant [OF assms, where P = ?P])
    show "?P 0 (r, Some J)" by simp
  next
    fix i and s s' :: "vecX \<times> matX option"
    assume "i < k" and P: "?P i s"
      and b: "Rigid_match_body TfAt c eT (int i) s = Inr s'"
    from P obtain Jm where Jm: "snd s = Some Jm" "\<forall>a j. 3 * i \<le> a \<longrightarrow> Jm a j = J a j"
      by auto
    from b Jm show "?P (Suc i) s'"
      by (auto simp: Rigid_match_body_def Let_def set_block3_def kResidualDim_def
          split: if_splits option.splits)
  qed
  then show ?thesis by simp
qed

text \<open>
  C1. In a call of \<open>GicpRigidCost::operator()\<close> with a trajectory attached and a
  Jacobian that returns, with \<open>offset = 3 * number of matches\<close> and \<open>Jm\<close> the Jacobian
  after the loop over the matches: the Jacobian returned is \<open>Jm\<close> with the alpha block
  written at the rows \<open>offset + 3\<close> to \<open>offset + 5\<close> (\<open>-Ua * R0^T * Hat3(p1_bar)\<close> in the
  columns of \<open>r0\<close>, \<open>Ua * R0^T\<close> in the columns of \<open>p0\<close>), nothing is left of the gamma
  block \<open>Ug * R0^T\<close> written to the same rows before, and the rows \<open>offset\<close> to
  \<open>offset + 2\<close> are those of the Jacobian passed in.
\<close>

theorem Rigid_imu_jacobian_rows:
  assumes tr: "ptraj c = Some tr"
    and call: "GicpRigidCost_call TfAt Log c x r (Some J) = Inr (ok, r', J')"
  shows "\<exists>r1 Jm J''.
       for_each (Rigid_match_body TfAt c \<lparr>so3 = SO3_exp (State_r0 x), translation = State_p0 x\<rparr>)
         (upto_int (int (length (cmatches c)))) (r, Some J) = Inr (r1, Some Jm)
     \<and> J' = Some J''
     \<and> J'' = set_block3
               (set_block3 Jm (3 * length (cmatches c) + 3) 0
                  (mat_mul (mat_mul (mat_neg (block3 (matX_scale (pre_U (preint c)) (imu_weight c)) 0 0))
                             (SO3_inverse (rot (hd (states tr)))))
                           (Hat3 (pos (last (states tr))))))
               (3 * length (cmatches c) + 3) 3
               (mat_mul (block3 (matX_scale (pre_U (preint c)) (imu_weight c)) 0 0)
                        (SO3_inverse (rot (hd (states tr)))))
     \<and> block3 J'' (3 * length (cmatches c) + 3) 0 =
         mat_mul (mat_mul (mat_neg (block3 (matX_scale (pre_U (preint c)) (imu_weight c)) 0 0))
                    (SO3_inverse (rot (hd (states tr)))))
                 (Hat3 (pos (last (states tr))))
     \<and> block3 J'' (3 * length (cmatches c) + 3) 3 =
         mat_mul (block3 (matX_scale (pre_U (preint c)) (imu_weight c)) 0 0)
                 (SO3_inverse (rot (hd (states tr))))
     \<and> (\<forall>i j. 3 * length (cmatches c) \<le> i \<and> i < 3 * length (cmatches c) + 3
             \<longrightarrow> J'' i j = J i j)"
proof -
  let ?n = "length (cmatches c)"
  let ?eT = "\<lparr>so3 = SO3_exp (State_r0 x), translation = State_p0 x\<rparr>"
  from call obtain r1 J1 where
    loop: "for_each (Rigid_match_body TfAt c ?eT) (upto_int (int ?n)) (r, Some J) = Inr (r1, J1)"
    by (auto simp: GicpRigidCost_call_def Let_def split: sum.splits)
  from Rigid_match_loop_rows [OF loop [unfolded upto_int_of_nat]] obtain Jm where
    Jm: "J1 = Some Jm" "\<forall>i j. 3 * ?n \<le> i \<longrightarrow> Jm i j = J i j" by auto
  let ?A = "mat_mul (mat_mul (mat_neg (block3 (matX_scale (pre_U (preint c)) (imu_weight c)) 0 0))
                             (SO3_inverse (rot (hd (states tr)))))
                           (Hat3 (pos (last (states tr))))"
  let ?B = "mat_mul (block3 (matX_scale (pre_U (preint c)) (imu_weight c)) 0 0)
                        (SO3_inverse (rot (hd (states tr))))"
  let ?J = "set_block3 (set_block3 Jm (3 * ?n + 3) 0 ?A) (3 * ?n + 3) 3 ?B"
  from call loop Jm(1) tr have J': "J' = Some ?J"
    by (simp add: GicpRigidCost_call_def Let_def Rigid_imu_jacobian_alpha_only
        kResidualDim_def ALPHA_def mult.commute split: if_splits)
  have b0: "block3 ?J (3 * ?n + 3) 0 = ?A"
    by (simp add: block3_set_block3_other block3_set_block3_same)
  have b3: "block3 ?J (3 * ?n + 3) 3 = ?B"
    by (simp add: block3_set_block3_same)
  have fr: "\<forall>i j. 3 * ?n \<le> i \<and> i < 3 * ?n + 3 \<longrightarrow> ?J i j = J i j"
    using Jm(2) by (simp add: set_block3_def)
  from loop Jm(1) J' b0 b3 fr show ?thesis by blast
qed


theorem Rigid_imu_jacobian_rows_witness:
  "\<exists>r' J''. GicpRigidCost_call (\<lambda>g c. ex_tf) (\<lambda>R. zero3) ex_cost3 (\<lambda>k. 0) (\<lambda>k. 7)
               (Some (\<lambda>i j. 5)) = Inr (True, r', Some J'')
     \<and> block3 J'' 9 0 = M3 (V3 0 3 (- 2)) (V3 (- 3) 0 1) (V3 2 (- 1) 0)
     \<and> block3 J'' 9 3 = kIdent3
     \<and> block3 J'' 6 0 = M3 (V3 5 5 5) (V3 5 5 5) (V3 5 5 5)
     \<and> block3 J'' 6 3 = M3 (V3 5 5 5) (V3 5 5 5) (V3 5 5 5)"
proof -
  have tr: "ptraj ex_cost3 = Some ex_traj_moved"
    by (simp add: ex_cost3_def)
  have n: "length (cmatches ex_cost3) = 2"
    by (simp add: ex_cost3_def ex_cost2_def)
  have "\<exists>r' J'. GicpRigidCost_call (\<lambda>g c. ex_tf) (\<lambda>R. zero3) ex_cost3 (\<lambda>k. 0) (\<lambda>k. 7)
               (Some (\<lambda>i j. 5)) = Inr (True, r', J')"
    by (simp add: GicpRigidCost_call_def Rigid_match_body_def Let_def upto_int_def upt_rec
        ex_cost3_def ex_cost2_def ex_cost_def GicpCost_ctor_def ex_traj_moved_def ex_traj_def)
  then obtain r' J' where
    call: "GicpRigidCost_call (\<lambda>g c. ex_tf) (\<lambda>R. zero3) ex_cost3 (\<lambda>k. 0) (\<lambda>k. 7)
             (Some (\<lambda>i j. 5)) = Inr (True, r', J')" by blast
  from Rigid_imu_jacobian_rows [OF tr call] obtain J'' where
    J': "J' = Some J''"
    and b0: "block3 J'' (3 * length (cmatches ex_cost3) + 3) 0 =
         mat_mul (mat_mul (mat_neg (block3 (matX_scale (pre_U (preint ex_cost3))
                                              (imu_weight ex_cost3)) 0 0))
                    (SO3_inverse (rot (hd (states ex_traj_moved)))))
                 (Hat3 (pos (last (states ex_traj_moved))))"
    and b3: "block3 J'' (3 * length (cmatches ex_cost3) + 3) 3 =
         mat_mul (block3 (matX_scale (pre_U (preint ex_cost3)) (imu_weight ex_cost3)) 0 0)
                 (SO3_inverse (rot (hd (states ex_traj_moved))))"
    and fr: "\<forall>i j. 3 * length (cmatches ex_cost3) \<le> i \<and> i < 3 * length (cmatches ex_cost3) + 3
             \<longrightarrow> J'' i j = (5 :: real)"
    by blast
  have U: "block3 (matX_scale (pre_U (preint ex_cost3)) (imu_weight ex_cost3)) 0 0 = kIdent3"
    by (simp add: ex_cost3_def ex_cost2_def ex_cost_def GicpCost_ctor_def ex_preint_def
        block3_def matX_scale_def matX_identity_def kIdent3_def)
  have "block3 J'' 9 0 = M3 (V3 0 3 (- 2)) (V3 (- 3) 0 1) (V3 2 (- 1) 0)"
    using b0 unfolding n U
    by (simp add: ex_traj_moved_def ex_state_def SO3_inverse_def transpose3_def kIdent3_def
        mat_neg_def)
  moreover have "block3 J'' 9 3 = kIdent3"
    using b3 unfolding n U
    by (simp add: ex_traj_moved_def ex_state_def SO3_inverse_def transpose3_def kIdent3_def)
  moreover have "block3 J'' 6 0 = M3 (V3 5 5 5) (V3 5 5 5) (V3 5 5 5)"
    "block3 J'' 6 3 = M3 (V3 5 5 5) (V3 5 5 5) (V3 5 5 5)"
    using fr unfolding n by (simp_all add: block3_def)
  ultimately show ?thesis using call J' by blast
qed

end
